theory Spec2Isabelle
  imports Complex_Main "HOL-Library.Char_ord" "HOL-Library.List_Lexorder"
begin

section \<open>Values held by a DataFrame cell, and the exceptions of the two programs\<close>

text \<open>
  A cell of a pandas DataFrame holds a float, a string, a timestamp or one of the missing
  markers. Floats are modelled as real numbers (rounding and the infinities are outside the
  model); the three missing markers \<open>NaN\<close>, \<open>NaT\<close> and \<open>NA\<close> are kept apart from the numbers.
  A timestamp is its number of nanoseconds since the epoch.
\<close>

datatype cell = NaN | NaT | NA | Num real | Str string | Ts int

datatype exn =
    MissingRequiredColumns "string list"
  | InvalidLiteral string
  | TypeError
  | ZeroDivisionError
  | ReadError
  | CastError

text \<open>\<open>pd.isna\<close> on a scalar.\<close>

fun pd_isna :: "cell \<Rightarrow> bool" where
  "pd_isna NaN = True"
| "pd_isna NaT = True"
| "pd_isna NA = True"
| "pd_isna (Num r) = False"
| "pd_isna (Str s) = False"
| "pd_isna (Ts t) = False"

text \<open>
  \<open>x == c\<close> and \<open>x <= c\<close> for a numeric constant \<open>c\<close>: equality between values of different
  types is False in Python, ordering between them raises TypeError.
\<close>

fun py_eq_num :: "cell \<Rightarrow> real \<Rightarrow> bool" where
  "py_eq_num (Num r) c = (r = c)"
| "py_eq_num x c = False"

fun py_le_num :: "cell \<Rightarrow> real \<Rightarrow> exn + bool" where
  "py_le_num (Num r) c = Inr (r \<le> c)"
| "py_le_num NaN c = Inr False"
| "py_le_num x c = Inl TypeError"

section \<open>Frames\<close>

text \<open>A DataFrame: the header and the rows, in order.\<close>

record 'r frame =
  columns :: "string list"
  rows :: "'r list"

section \<open>etl/clean_superstore.py\<close>

subsection \<open>normalize_columns\<close>

text \<open>
  Header names are byte strings. \<open>str.strip\<close>, \<open>str.split\<close> and \<open>" ".join\<close> follow Python:
  whitespace is what \<open>str.isspace\<close> accepts among the characters below 256, \<open>split()\<close>
  gives the maximal runs of other characters.
\<close>

definition py_isspace :: "char \<Rightarrow> bool" where
  "py_isspace c = ((of_char c :: nat) \<in> {9, 10, 11, 12, 13, 28, 29, 30, 31, 32, 133, 160})"

definition py_strip :: "string \<Rightarrow> string" where
  "py_strip s = rev (dropWhile py_isspace (rev (dropWhile py_isspace s)))"

fun py_split :: "string \<Rightarrow> string list" where
  "py_split [] = []"
| "py_split [c] = (if py_isspace c then [] else [[c]])"
| "py_split (c # d # ds) =
     (if py_isspace c then py_split (d # ds)
      else if py_isspace d then [c] # py_split (d # ds)
      else (case py_split (d # ds) of [] \<Rightarrow> [[c]] | w # ws \<Rightarrow> (c # w) # ws))"

fun py_join :: "string \<Rightarrow> string list \<Rightarrow> string" where
  "py_join sep [] = []"
| "py_join sep [w] = w"
| "py_join sep (w # v # ws) = w @ sep @ py_join sep (v # ws)"

definition renames :: "(string \<times> string) list" where
  "renames =
    [(''Order Date'', ''Order Date''),
     (''Ship Date'', ''Ship Date''),
     (''Order ID'', ''Order ID''),
     (''Customer ID'', ''Customer ID''),
     (''Customer Name'', ''Customer Name''),
     (''Product ID'', ''Product ID''),
     (''Product Name'', ''Product Name''),
     (''Sub-Category'', ''Sub-Category''),
     (''Sub Category'', ''Sub-Category''),
     (''Category'', ''Category''),
     (''Segment'', ''Segment''),
     (''Region'', ''Region''),
     (''State'', ''State''),
     (''City'', ''City''),
     (''Postal Code'', ''Postal Code''),
     (''Ship Mode'', ''Ship Mode''),
     (''Sales'', ''Sales''),
     (''Profit'', ''Profit''),
     (''Discount'', ''Discount''),
     (''Quantity'', ''Quantity'')]"

definition rename_columns :: "(string \<rightharpoonup> string) \<Rightarrow> 'r frame \<Rightarrow> 'r frame" where
  "rename_columns m df =
     df\<lparr>columns := map (\<lambda>c. case m c of None \<Rightarrow> c | Some t \<Rightarrow> t) (columns df)\<rparr>"

definition normalize_columns :: "'r frame \<Rightarrow> 'r frame" where
  "normalize_columns df0 =
     (let df = rename_columns
                 (map_of [(c, py_join '' '' (py_split (py_strip c))). c \<leftarrow> columns df0]) df0;
          df = rename_columns
                 (map_of [(c, the (map_of renames c)). c \<leftarrow> columns df, map_of renames c \<noteq> None]) df
      in df)"

subsection \<open>discount_bucket\<close>

text \<open>The en dash of the bucket labels, as its three UTF-8 bytes.\<close>

definition en_dash :: string where
  "en_dash = [CHR 0xE2, CHR 0x80, CHR 0x93]"

definition UNKNOWN :: string where "UNKNOWN = ''Unknown''"
definition NO_DISCOUNT :: string where "NO_DISCOUNT = ''No Discount''"
definition LOW :: string where "LOW = ''Low (0'' @ en_dash @ ''20%)''"
definition MEDIUM :: string where "MEDIUM = ''Medium (20'' @ en_dash @ ''40%)''"
definition HIGH :: string where "HIGH = ''High (40%+)''"

text \<open>The body of the \<open>try\<close> block: the first test that holds returns, a comparison may raise.\<close>

definition discount_bucket_try :: "cell \<Rightarrow> exn + string" where
  "discount_bucket_try x =
     (if pd_isna x then Inr UNKNOWN
      else if py_eq_num x 0 then Inr NO_DISCOUNT
      else (case py_le_num x 0.20 of
              Inl e \<Rightarrow> Inl e
            | Inr True \<Rightarrow> Inr LOW
            | Inr False \<Rightarrow>
                (case py_le_num x 0.40 of
                   Inl e \<Rightarrow> Inl e
                 | Inr True \<Rightarrow> Inr MEDIUM
                 | Inr False \<Rightarrow> Inr HIGH)))"

text \<open>\<open>except Exception: return "Unknown"\<close>.\<close>

definition discount_bucket :: "cell \<Rightarrow> string" where
  "discount_bucket x = (case discount_bucket_try x of Inl e \<Rightarrow> UNKNOWN | Inr s \<Rightarrow> s)"

subsection \<open>Library conversions\<close>

text \<open>
  The parsers of pandas and the calendar arithmetic of its timestamps are not code of this
  repository. They are parameters of the model: what \<open>pd.to_datetime(errors="coerce")\<close> and
  \<open>pd.to_numeric(errors="coerce")\<close> make of one value (None for a value they cannot read),
  what the cast to \<open>Int64\<close> makes of one value (None when the cast raises, Some None for a
  missing value), Python's \<open>int\<close> on a string, and the year and the first instant of the
  month of a timestamp.
\<close>

record pylib =
  to_datetime :: "cell \<Rightarrow> int option"
  to_numeric :: "cell \<Rightarrow> real option"
  astype_Int64 :: "cell \<Rightarrow> int option option"
  py_int :: "string \<Rightarrow> int option"
  dt_year :: "int \<Rightarrow> int"
  dt_month_start :: "int \<Rightarrow> int"

subsection \<open>main\<close>

text \<open>
  The raw table is a frame of untyped rows, one cell per column. \<open>df[col]\<close> reads the column
  of that name and \<open>df[col] = values\<close> overwrites it, or appends it when the name is new.
  Frames with two columns of one name are outside the model: theorems about \<open>main\<close> ask for
  distinct reconciled names.
\<close>

definition col_index :: "string \<Rightarrow> string list \<Rightarrow> nat" where
  "col_index c cs = length (takeWhile (\<lambda>x. x \<noteq> c) cs)"

definition getitem :: "cell list frame \<Rightarrow> string \<Rightarrow> cell list" where
  "getitem df c = map (\<lambda>r. r ! col_index c (columns df)) (rows df)"

definition setitem :: "cell list frame \<Rightarrow> string \<Rightarrow> cell list \<Rightarrow> cell list frame" where
  "setitem df c vs =
     (if c \<in> set (columns df)
      then df\<lparr>rows := map (\<lambda>(r, v). r[col_index c (columns df) := v]) (zip (rows df) vs)\<rparr>
      else df\<lparr>columns := columns df @ [c],
              rows := map (\<lambda>(r, v). r @ [v]) (zip (rows df) vs)\<rparr>)"

text \<open>\<open>df.dropna(how="all")\<close>: a row goes when every cell of it is missing.\<close>

definition dropna_all :: "cell list frame \<Rightarrow> cell list frame" where
  "dropna_all df = df\<lparr>rows := filter (\<lambda>r. \<not> list_all pd_isna r) (rows df)\<rparr>"

definition datetime_cell :: "pylib \<Rightarrow> cell \<Rightarrow> cell" where
  "datetime_cell L x = (case to_datetime L x of None \<Rightarrow> NaT | Some t \<Rightarrow> Ts t)"

definition numeric_cell :: "pylib \<Rightarrow> cell \<Rightarrow> cell" where
  "numeric_cell L x = (case to_numeric L x of None \<Rightarrow> NaN | Some r \<Rightarrow> Num r)"

definition parse_dates :: "pylib \<Rightarrow> cell list frame \<Rightarrow> cell list frame" where
  "parse_dates L df0 =
     foldl (\<lambda>df col. if col \<in> set (columns df)
                      then setitem df col (map (datetime_cell L) (getitem df col)) else df)
       df0 [''Order Date'', ''Ship Date'']"

definition coerce_numeric :: "pylib \<Rightarrow> cell list frame \<Rightarrow> cell list frame" where
  "coerce_numeric L df0 =
     foldl (\<lambda>df col. if col \<in> set (columns df)
                      then setitem df col (map (numeric_cell L) (getitem df col)) else df)
       df0 [''Sales'', ''Profit'', ''Discount'', ''Quantity'']"

text \<open>\<open>df["Postal Code"].astype("Int64")\<close>: one value that does not cast raises for the column.\<close>

fun int64_cells :: "pylib \<Rightarrow> cell list \<Rightarrow> exn + cell list" where
  "int64_cells L [] = Inr []"
| "int64_cells L (x # xs) =
     (case astype_Int64 L x of
        None \<Rightarrow> Inl CastError
      | Some v \<Rightarrow>
          (case int64_cells L xs of
             Inl e \<Rightarrow> Inl e
           | Inr vs \<Rightarrow> Inr ((case v of None \<Rightarrow> NA | Some n \<Rightarrow> Num (of_int n)) # vs)))"

definition postal_code :: "pylib \<Rightarrow> cell list frame \<Rightarrow> exn + cell list frame" where
  "postal_code L df =
     (if ''Postal Code'' \<in> set (columns df)
      then (case int64_cells L (getitem df ''Postal Code'') of
              Inl e \<Rightarrow> Inl e
            | Inr vs \<Rightarrow> Inr (setitem df ''Postal Code'' vs))
      else Inr df)"

text \<open>\<open>(ship - order).dt.days\<close>: whole days, rounded down; missing when a date is missing.\<close>

definition ns_per_day :: int where
  "ns_per_day = 86400 * 1000000000"

fun ship_days_cell :: "cell \<Rightarrow> cell \<Rightarrow> cell" where
  "ship_days_cell (Ts s) (Ts d) = Num (of_int ((s - d) div ns_per_day))"
| "ship_days_cell x y = NaN"

definition helper_fields :: "cell list frame \<Rightarrow> cell list frame" where
  "helper_fields df0 =
     (let df = (if ''Order Date'' \<in> set (columns df0) \<and> ''Ship Date'' \<in> set (columns df0)
                then setitem df0 ''Ship Days''
                       (map (\<lambda>(s, d). ship_days_cell s d)
                          (zip (getitem df0 ''Ship Date'') (getitem df0 ''Order Date'')))
                else df0)
      in if ''Discount'' \<in> set (columns df)
         then setitem df ''Discount Bucket''
                (map (\<lambda>x. Str (discount_bucket x)) (getitem df ''Discount''))
         else df)"

text \<open>The profiling summary: the list of key and value pairs, then the null counts.\<close>

datatype pvalue = PInt nat | PStamp cell

fun duplicated :: "cell list \<Rightarrow> cell list \<Rightarrow> bool list" where
  "duplicated seen [] = []"
| "duplicated seen (x # xs) = (x \<in> set seen) # duplicated (x # seen) xs"

definition stamps :: "cell list \<Rightarrow> int list" where
  "stamps xs = concat (map (\<lambda>x. case x of Ts t \<Rightarrow> [t] | _ \<Rightarrow> []) xs)"

definition stamp_min :: "cell list \<Rightarrow> cell" where
  "stamp_min xs = (case stamps xs of [] \<Rightarrow> NaT | t # ts \<Rightarrow> Ts (fold min ts t))"

definition stamp_max :: "cell list \<Rightarrow> cell" where
  "stamp_max xs = (case stamps xs of [] \<Rightarrow> NaT | t # ts \<Rightarrow> Ts (fold max ts t))"

definition profile_summary :: "cell list frame \<Rightarrow> (string \<times> pvalue) list" where
  "profile_summary df =
     [(''rows'', PInt (length (rows df))), (''columns'', PInt (length (columns df)))]
     @ (if ''Order ID'' \<in> set (columns df)
        then [(''unique_order_ids'',
                 PInt (length (remdups (filter (\<lambda>x. \<not> pd_isna x) (getitem df ''Order ID''))))),
              (''duplicate_order_id_rows'',
                 PInt (length (filter id (duplicated [] (getitem df ''Order ID'')))))]
        else [])
     @ (if ''Order Date'' \<in> set (columns df)
        then [(''order_date_min'', PStamp (stamp_min (getitem df ''Order Date''))),
              (''order_date_max'', PStamp (stamp_max (getitem df ''Order Date'')))]
        else [])"

text \<open>
  \<open>df.isna().sum().sort_values(ascending=False)\<close>. pandas does not fix the order of columns
  with equal counts; the model keeps them in column order.
\<close>

definition null_counts :: "cell list frame \<Rightarrow> (string \<times> nat) list" where
  "null_counts df =
     rev (sort_key snd
       (rev (map (\<lambda>c. (c, length (filter pd_isna (getitem df c)))) (columns df))))"

record profile =
  summary :: "(string \<times> pvalue) list"
  nulls_top25 :: "(string \<times> nat) list"

text \<open>What \<open>main\<close> leaves on disk: the output directory and the two files.\<close>

record outputs =
  outdir_exists :: bool
  cleaned_csv :: "cell list frame option"
  profile_txt :: "profile option"

text \<open>
  \<open>main\<close>, from the result of \<open>pd.read_csv\<close> (the frame read, or the exception it raised).
  The result is the exception that ends the run or the return code, with the files as they
  are then.
\<close>

definition main :: "pylib \<Rightarrow> exn + cell list frame \<Rightarrow> outputs \<Rightarrow> (exn + int) \<times> outputs" where
  "main L read_csv fs0 =
     (let fs = fs0\<lparr>outdir_exists := True\<rparr> in
      case read_csv of
        Inl e \<Rightarrow> (Inl e, fs)
      | Inr raw \<Rightarrow>
          (let df = normalize_columns raw;
               df = dropna_all df;
               df = parse_dates L df;
               df = coerce_numeric L df
           in case postal_code L df of
                Inl e \<Rightarrow> (Inl e, fs)
              | Inr df \<Rightarrow>
                  (let df = helper_fields df;
                       summary = profile_summary df;
                       nulls = null_counts df;
                       fs = fs\<lparr>cleaned_csv := Some df\<rparr>;
                       fs = fs\<lparr>profile_txt :=
                               Some \<lparr>summary = summary, nulls_top25 = take 25 nulls\<rparr>\<rparr>
                   in (Inr 0, fs))))"
section \<open>dash_app/app.py\<close>

subsection \<open>The cleaned table and load_data\<close>

text \<open>
  The dashboard reads the file the normalizer wrote, so its columns are typed: text columns
  hold a string or nothing, numeric columns a number or nothing, the order date a timestamp
  or nothing. A row keeps the columns the program reads; which of them the file really has
  is the header \<open>columns\<close> of the frame.
\<close>

record row =
  Order_Date :: "int option"
  Region :: "string option"
  Segment :: "string option"
  Category :: "string option"
  Sub_Category :: "string option"
  Sales :: "real option"
  Profit :: "real option"
  Discount :: "real option"
  Ship_Mode :: "string option"
  State :: "string option"
  Order_ID :: "string option"
  Discount_Bucket :: "string option"

record lrow = row +
  Year :: "int option"
  Month :: "int option"
  State_Abbr :: "string option"

definition STATE_TO_ABBR :: "(string \<times> string) list" where
  "STATE_TO_ABBR =
    [(''Alabama'', ''AL''), (''Alaska'', ''AK''), (''Arizona'', ''AZ''), (''Arkansas'', ''AR''),
     (''California'', ''CA''), (''Colorado'', ''CO''), (''Connecticut'', ''CT''),
     (''Delaware'', ''DE''), (''Florida'', ''FL''), (''Georgia'', ''GA''),
     (''Hawaii'', ''HI''), (''Idaho'', ''ID''), (''Illinois'', ''IL''), (''Indiana'', ''IN''),
     (''Iowa'', ''IA''), (''Kansas'', ''KS''), (''Kentucky'', ''KY''), (''Louisiana'', ''LA''),
     (''Maine'', ''ME''), (''Maryland'', ''MD''), (''Massachusetts'', ''MA''),
     (''Michigan'', ''MI''), (''Minnesota'', ''MN''), (''Mississippi'', ''MS''),
     (''Missouri'', ''MO''), (''Montana'', ''MT''), (''Nebraska'', ''NE''), (''Nevada'', ''NV''),
     (''New Hampshire'', ''NH''), (''New Jersey'', ''NJ''), (''New Mexico'', ''NM''),
     (''New York'', ''NY''), (''North Carolina'', ''NC''), (''North Dakota'', ''ND''),
     (''Ohio'', ''OH''), (''Oklahoma'', ''OK''), (''Oregon'', ''OR''), (''Pennsylvania'', ''PA''),
     (''Rhode Island'', ''RI''), (''South Carolina'', ''SC''), (''South Dakota'', ''SD''),
     (''Tennessee'', ''TN''), (''Texas'', ''TX''), (''Utah'', ''UT''), (''Vermont'', ''VT''),
     (''Virginia'', ''VA''), (''Washington'', ''WA''), (''West Virginia'', ''WV''),
     (''Wisconsin'', ''WI''), (''Wyoming'', ''WY''), (''District of Columbia'', ''DC'')]"

definition needed :: "string list" where
  "needed = [''Order Date'', ''Region'', ''Segment'', ''Category'', ''Sub-Category'', ''Sales'',
             ''Profit'', ''Discount'', ''Ship Mode'', ''State'', ''Order ID'']"

text \<open>\<open>df["State"].map(STATE_TO_ABBR)\<close>: a state that is no key of the table maps to nothing.\<close>

definition map_state :: "string option \<Rightarrow> string option" where
  "map_state s = (case s of None \<Rightarrow> None | Some n \<Rightarrow> map_of STATE_TO_ABBR n)"

definition load_row :: "pylib \<Rightarrow> row \<Rightarrow> lrow" where
  "load_row L r =
     \<lparr>Order_Date = Order_Date r, Region = Region r, Segment = Segment r,
      Category = Category r, Sub_Category = Sub_Category r, Sales = Sales r,
      Profit = Profit r, Discount = Discount r, Ship_Mode = Ship_Mode r, State = State r,
      Order_ID = Order_ID r, Discount_Bucket = Discount_Bucket r,
      Year = map_option (dt_year L) (Order_Date r),
      Month = map_option (dt_month_start L) (Order_Date r),
      State_Abbr = map_state (State r)\<rparr>"

definition add_column :: "string \<Rightarrow> string list \<Rightarrow> string list" where
  "add_column c cs = (if c \<in> set cs then cs else cs @ [c])"

definition load_data :: "pylib \<Rightarrow> exn + row frame \<Rightarrow> exn + lrow frame" where
  "load_data L read_csv =
     (case read_csv of
        Inl e \<Rightarrow> Inl e
      | Inr df \<Rightarrow>
          (let missing = filter (\<lambda>c. c \<notin> set (columns df)) needed in
           if missing \<noteq> [] then Inl (MissingRequiredColumns missing)
           else Inr \<lparr>columns = add_column ''State Abbr''
                                 (add_column ''Month'' (add_column ''Year'' (columns df))),
                     rows = map (load_row L) (rows df)\<rparr>))"

subsection \<open>Frames as objects\<close>

text \<open>
  A DataFrame is an object: \<open>DF\<close> names one, \<open>DF.copy()\<close>, boolean indexing, \<open>dropna\<close>,
  \<open>groupby(...).agg(...)\<close> and \<open>sort_values\<close> each make a new one, and \<open>df[col] = values\<close>
  changes the object \<open>df\<close> names. The store maps addresses to the frames alive; a variable of
  the program holds an address.
\<close>

record 'k agg =
  key :: 'k
  Sales_sum :: real
  Profit_sum :: real

record 'k agg_margin = "'k agg" +
  Margin :: real

record ship =
  Ship_Mode_key :: string
  Profit_total :: real
  Orders :: nat

record ship_ppo = ship +
  Profit_per_Order :: real

datatype obj =
    OTable "lrow frame"
  | OMonthly "int agg frame"
  | OGrouped "string agg frame"
  | OMargins "string agg_margin frame"
  | OShip "ship frame"
  | OShipPPO "ship_ppo frame"

record store =
  heap :: "nat \<Rightarrow> obj option"
  nxt :: nat

definition alloc :: "obj \<Rightarrow> store \<Rightarrow> nat \<times> store" where
  "alloc ob st = (nxt st, st\<lparr>heap := (heap st)(nxt st \<mapsto> ob), nxt := Suc (nxt st)\<rparr>)"

fun the_table :: "obj \<Rightarrow> lrow frame" where
  "the_table (OTable t) = t"

fun the_grouped :: "obj \<Rightarrow> string agg frame" where
  "the_grouped (OGrouped t) = t"

fun the_margins :: "obj \<Rightarrow> string agg_margin frame" where
  "the_margins (OMargins t) = t"

fun the_monthly :: "obj \<Rightarrow> int agg frame" where
  "the_monthly (OMonthly t) = t"

fun the_ship :: "obj \<Rightarrow> ship frame" where
  "the_ship (OShip t) = t"

fun the_ship_ppo :: "obj \<Rightarrow> ship_ppo frame" where
  "the_ship_ppo (OShipPPO t) = t"

definition deref :: "store \<Rightarrow> nat \<Rightarrow> obj" where
  "deref st a = the (heap st a)"

text \<open>The module global \<open>DF = load_data()\<close> is the first object of the process.\<close>

definition DF :: nat where
  "DF = 0"

definition startup :: "pylib \<Rightarrow> exn + row frame \<Rightarrow> exn + store" where
  "startup L read_csv =
     (case load_data L read_csv of
        Inl e \<Rightarrow> Inl e
      | Inr t \<Rightarrow> Inr \<lparr>heap = [DF \<mapsto> OTable t], nxt = Suc DF\<rparr>)"

subsection \<open>filter_df\<close>

datatype year_arg = YInt int | YStr string

definition int_of_year :: "pylib \<Rightarrow> year_arg \<Rightarrow> exn + int" where
  "int_of_year L y =
     (case y of
        YInt n \<Rightarrow> Inr n
      | YStr s \<Rightarrow> (case py_int L s of None \<Rightarrow> Inl (InvalidLiteral s) | Some n \<Rightarrow> Inr n))"

text \<open>\<open>dff[mask]\<close>: a new frame with the rows where the mask holds.\<close>

definition getitem_mask :: "(lrow \<Rightarrow> bool) \<Rightarrow> nat \<Rightarrow> store \<Rightarrow> nat \<times> store" where
  "getitem_mask m a st =
     (let t = the_table (deref st a) in alloc (OTable (t\<lparr>rows := filter m (rows t)\<rparr>)) st)"

definition filter_df ::
  "pylib \<Rightarrow> string \<Rightarrow> string \<Rightarrow> string \<Rightarrow> year_arg \<Rightarrow> store \<Rightarrow> (exn + nat) \<times> store" where
  "filter_df L region segment category year st0 =
     (let (dff, st) = alloc (OTable (the_table (deref st0 DF))) st0;
          (dff, st) = (if region \<noteq> ''All''
                       then getitem_mask (\<lambda>r. Region r = Some region) dff st else (dff, st));
          (dff, st) = (if segment \<noteq> ''All''
                       then getitem_mask (\<lambda>r. Segment r = Some segment) dff st else (dff, st));
          (dff, st) = (if category \<noteq> ''All''
                       then getitem_mask (\<lambda>r. Category r = Some category) dff st else (dff, st))
      in if year \<noteq> YStr ''All''
         then (case int_of_year L year of
                 Inl e \<Rightarrow> (Inl e, st)
               | Inr y \<Rightarrow>
                   (let (dff, st) = getitem_mask (\<lambda>r. Year r = Some y) dff st
                    in (Inr dff, st)))
         else (Inr dff, st))"

subsection \<open>Aggregations\<close>

text \<open>\<open>Series.sum()\<close> skips missing values; the sum of none is 0.\<close>

definition sum_skipna :: "real option list \<Rightarrow> real" where
  "sum_skipna xs = sum_list (map (\<lambda>x. case x of None \<Rightarrow> 0 | Some v \<Rightarrow> v) xs)"

text \<open>\<open>Series.nunique()\<close> counts the distinct values that are not missing.\<close>

definition nunique :: "'a option list \<Rightarrow> nat" where
  "nunique xs = length (remdups (List.map_filter id xs))"

text \<open>
  \<open>groupby(col)\<close>: one group for each value of the column, in ascending order; rows where the
  column is missing belong to no group.
\<close>

definition group_keys :: "('r \<Rightarrow> 'k::linorder option) \<Rightarrow> 'r list \<Rightarrow> 'k list" where
  "group_keys col rs = sort (remdups (List.map_filter col rs))"

definition group_rows :: "('r \<Rightarrow> 'k option) \<Rightarrow> 'r list \<Rightarrow> 'k \<Rightarrow> 'r list" where
  "group_rows col rs k = filter (\<lambda>r. col r = Some k) rs"

text \<open>\<open>.agg(Sales=("Sales", "sum"), Profit=("Profit", "sum"))\<close> with \<open>as_index=False\<close>.\<close>

definition agg_sales_profit ::
  "string \<Rightarrow> (lrow \<Rightarrow> 'k::linorder option) \<Rightarrow> lrow frame \<Rightarrow> 'k agg frame" where
  "agg_sales_profit name col t =
     \<lparr>columns = [name, ''Sales'', ''Profit''],
      rows = map (\<lambda>k. \<lparr>key = k,
                        Sales_sum = sum_skipna (map Sales (group_rows col (rows t) k)),
                        Profit_sum = sum_skipna (map Profit (group_rows col (rows t) k))\<rparr>)
               (group_keys col (rows t))\<rparr>"

text \<open>\<open>.agg(Profit=("Profit", "sum"), Orders=("Order ID", "nunique"))\<close>.\<close>

definition agg_profit_orders :: "lrow frame \<Rightarrow> ship frame" where
  "agg_profit_orders t =
     \<lparr>columns = [''Ship Mode'', ''Profit'', ''Orders''],
      rows = map (\<lambda>k. \<lparr>Ship_Mode_key = k,
                        Profit_total = sum_skipna (map Profit (group_rows Ship_Mode (rows t) k)),
                        Orders = nunique (map Order_ID (group_rows Ship_Mode (rows t) k))\<rparr>)
               (group_keys Ship_Mode (rows t))\<rparr>"

text \<open>Python's \<open>/\<close> raises when the divisor is zero.\<close>

definition truediv :: "real \<Rightarrow> real \<Rightarrow> exn + real" where
  "truediv a b = (if b = 0 then Inl ZeroDivisionError else Inr (a / b))"

text \<open>The first exception of a row-wise \<open>apply\<close> ends it.\<close>

fun collect :: "(exn + 'a) list \<Rightarrow> exn + 'a list" where
  "collect [] = Inr []"
| "collect (Inl e # xs) = Inl e"
| "collect (Inr v # xs) = (case collect xs of Inl e \<Rightarrow> Inl e | Inr vs \<Rightarrow> Inr (v # vs))"

subsection \<open>update\<close>

text \<open>
  The callback returns five formatted numbers and five figures. The model returns the
  numbers before formatting and, for each figure, the rows of the frame it is drawn from;
  the formatting of currency and percent and the plotting are presentation.
\<close>

record result =
  kpi_sales :: real
  kpi_profit :: real
  kpi_margin :: real
  kpi_orders :: nat
  kpi_aov :: real
  fig_trend :: "int agg list"
  fig_map :: "string agg list"
  fig_sub :: "string agg list"
  fig_disc :: "string agg_margin list"
  fig_ship :: "ship_ppo list"

text \<open>The five numbers: the two ratios divide only when the divisor is truthy.\<close>

definition kpis :: "nat \<Rightarrow> store \<Rightarrow> exn + real \<times> real \<times> nat \<times> real \<times> real" where
  "kpis dff st =
     (let total_sales = sum_skipna (map Sales (rows (the_table (deref st dff))));
          total_profit = sum_skipna (map Profit (rows (the_table (deref st dff))));
          orders = nunique (map Order_ID (rows (the_table (deref st dff))))
      in case (if total_sales \<noteq> 0 then truediv total_profit total_sales else Inr 0) of
           Inl e \<Rightarrow> Inl e
         | Inr margin \<Rightarrow>
             (case (if orders \<noteq> 0 then truediv total_sales (real orders) else Inr 0) of
                Inl e \<Rightarrow> Inl e
              | Inr aov \<Rightarrow> Inr (total_sales, total_profit, orders, margin, aov)))"

text \<open>Trend (monthly): group by Month, then \<open>sort_values("Month")\<close>.\<close>

definition trend :: "nat \<Rightarrow> store \<Rightarrow> int agg list \<times> store" where
  "trend dff st0 =
     (let (g, st) = alloc (OMonthly (agg_sales_profit ''Month'' Month (the_table (deref st0 dff)))) st0;
          (by_month, st) = alloc (OMonthly ((the_monthly (deref st g))
                              \<lparr>rows := sort_key key (rows (the_monthly (deref st g)))\<rparr>)) st
      in (rows (the_monthly (deref st by_month)), st))"

text \<open>Map (state): \<open>dropna(subset=["State Abbr"])\<close>, then group by State Abbr.\<close>

definition state_map :: "nat \<Rightarrow> store \<Rightarrow> string agg list \<times> store" where
  "state_map dff st0 =
     (let (d, st) = getitem_mask (\<lambda>r. State_Abbr r \<noteq> None) dff st0;
          (by_state, st) = alloc (OGrouped (agg_sales_profit ''State Abbr'' State_Abbr
                              (the_table (deref st d)))) st
      in (rows (the_grouped (deref st by_state)), st))"

text \<open>
  Sub-category profit: group by Sub-Category, then \<open>sort_values("Profit")\<close>. pandas does not
  fix the order of groups with equal profit; the model keeps them in key order.
\<close>

definition sub_category :: "nat \<Rightarrow> store \<Rightarrow> string agg list \<times> store" where
  "sub_category dff st0 =
     (let (g, st) = alloc (OGrouped (agg_sales_profit ''Sub-Category'' Sub_Category
                      (the_table (deref st0 dff)))) st0;
          (by_sub, st) = alloc (OGrouped ((the_grouped (deref st g))
                            \<lparr>rows := sort_key Profit_sum (rows (the_grouped (deref st g)))\<rparr>)) st
      in (rows (the_grouped (deref st by_sub)), st))"

text \<open>
  Discount bucket vs margin: when the table has the column, group by it and assign the
  column Margin to the grouped frame, in place; otherwise the figure is empty.
\<close>

definition with_margin :: "string agg frame \<Rightarrow> real list \<Rightarrow> string agg_margin frame" where
  "with_margin t ms =
     \<lparr>columns = add_column ''Margin'' (columns t),
      rows = map (\<lambda>(g, m). \<lparr>key = key g, Sales_sum = Sales_sum g, Profit_sum = Profit_sum g,
                             Margin = m\<rparr>) (zip (rows t) ms)\<rparr>"

definition discount_margin :: "nat \<Rightarrow> store \<Rightarrow> (exn + string agg_margin list) \<times> store" where
  "discount_margin dff st0 =
     (if ''Discount Bucket'' \<in> set (columns (the_table (deref st0 dff)))
      then (let (by_disc, st) = alloc (OGrouped (agg_sales_profit ''Discount Bucket'' Discount_Bucket
                                  (the_table (deref st0 dff)))) st0
            in case collect (map (\<lambda>r. if Sales_sum r \<noteq> 0
                                        then truediv (Profit_sum r) (Sales_sum r) else Inr 0)
                              (rows (the_grouped (deref st by_disc)))) of
                 Inl e \<Rightarrow> (Inl e, st)
               | Inr ms \<Rightarrow>
                   (let st = st\<lparr>heap := (heap st)(by_disc \<mapsto>
                                 OMargins (with_margin (the_grouped (deref st by_disc)) ms))\<rparr>
                    in (Inr (rows (the_margins (deref st by_disc))), st)))
      else (Inr [], st0))"

text \<open>Ship mode profit per order: the column Profit per Order is assigned in place.\<close>

definition with_profit_per_order :: "ship frame \<Rightarrow> real list \<Rightarrow> ship_ppo frame" where
  "with_profit_per_order t ps =
     \<lparr>columns = add_column ''Profit per Order'' (columns t),
      rows = map (\<lambda>(g, p). \<lparr>Ship_Mode_key = Ship_Mode_key g, Profit_total = Profit_total g,
                             Orders = Orders g, Profit_per_Order = p\<rparr>) (zip (rows t) ps)\<rparr>"

definition ship_profit :: "nat \<Rightarrow> store \<Rightarrow> (exn + ship_ppo list) \<times> store" where
  "ship_profit dff st0 =
     (let (by_ship, st) = alloc (OShip (agg_profit_orders (the_table (deref st0 dff)))) st0
      in case collect (map (\<lambda>r. if Orders r \<noteq> 0
                                  then truediv (Profit_total r) (real (Orders r)) else Inr 0)
                        (rows (the_ship (deref st by_ship)))) of
           Inl e \<Rightarrow> (Inl e, st)
         | Inr ps \<Rightarrow>
             (let st = st\<lparr>heap := (heap st)(by_ship \<mapsto>
                           OShipPPO (with_profit_per_order (the_ship (deref st by_ship)) ps))\<rparr>
              in (Inr (rows (the_ship_ppo (deref st by_ship))), st)))"

definition update ::
  "pylib \<Rightarrow> string \<Rightarrow> string \<Rightarrow> string \<Rightarrow> year_arg \<Rightarrow> store \<Rightarrow> (exn + result) \<times> store" where
  "update L region segment category year st0 =
     (case filter_df L region segment category year st0 of
        (Inl e, st) \<Rightarrow> (Inl e, st)
      | (Inr dff, st) \<Rightarrow>
          (case kpis dff st of
             Inl e \<Rightarrow> (Inl e, st)
           | Inr (total_sales, total_profit, orders, margin, aov) \<Rightarrow>
               (let (by_month, st) = trend dff st;
                    (by_state, st) = state_map dff st;
                    (by_sub, st) = sub_category dff st
                in case discount_margin dff st of
                     (Inl e, st) \<Rightarrow> (Inl e, st)
                   | (Inr by_disc, st) \<Rightarrow>
                       (case ship_profit dff st of
                          (Inl e, st) \<Rightarrow> (Inl e, st)
                        | (Inr by_ship, st) \<Rightarrow>
                            (Inr \<lparr>kpi_sales = total_sales, kpi_profit = total_profit,
                                  kpi_margin = margin, kpi_orders = orders, kpi_aov = aov,
                                  fig_trend = by_month, fig_map = by_state, fig_sub = by_sub,
                                  fig_disc = by_disc, fig_ship = by_ship\<rparr>, st)))))"
section \<open>Notions used in the statements\<close>

text \<open>
  What the two renamings of \<open>normalize_columns\<close> do to one header name: \<open>tidy\<close> trims it
  and collapses its whitespace, \<open>canon\<close> replaces a known alternate spelling. A token is a
  non-empty string without whitespace.
\<close>

definition tidy :: "string \<Rightarrow> string" where
  "tidy c = py_join '' '' (py_split (py_strip c))"

definition canon :: "string \<Rightarrow> string" where
  "canon c = (case map_of renames c of None \<Rightarrow> c | Some t \<Rightarrow> t)"

definition token :: "string \<Rightarrow> bool" where
  "token w = (w \<noteq> [] \<and> (\<forall>c \<in> set w. \<not> py_isspace c))"

text \<open>A ratio with the zero guard: 0 when the divisor is 0.\<close>

definition ratio :: "real \<Rightarrow> real \<Rightarrow> real" where
  "ratio a b = (if b = 0 then 0 else a / b)"

text \<open>
  \<open>extends st st'\<close>: every object alive in \<open>st\<close> is unchanged in \<open>st'\<close>, which may hold new
  ones. \<open>points_to (a, st) D\<close>: the address is alive and names a table equal to \<open>D\<close>.
  \<open>cond_mask\<close> is one guarded filtering step of \<open>filter_df\<close>.
\<close>

definition extends :: "store \<Rightarrow> store \<Rightarrow> bool" where
  "extends st st' = (nxt st \<le> nxt st' \<and> (\<forall>a<nxt st. heap st' a = heap st a))"

text \<open>The rows of the discount and shipping figures, as functions of the filtered table.\<close>

definition margins_of :: "lrow frame \<Rightarrow> string agg_margin list" where
  "margins_of D =
     (if ''Discount Bucket'' \<in> set (columns D)
      then map (\<lambda>g. \<lparr>key = key g, Sales_sum = Sales_sum g, Profit_sum = Profit_sum g,
                       Margin = ratio (Profit_sum g) (Sales_sum g)\<rparr>)
             (rows (agg_sales_profit ''Discount Bucket'' Discount_Bucket D))
      else [])"

definition profit_per_order_of :: "lrow frame \<Rightarrow> ship_ppo list" where
  "profit_per_order_of D =
     map (\<lambda>g. \<lparr>Ship_Mode_key = Ship_Mode_key g, Profit_total = Profit_total g,
                  Orders = Orders g,
                  Profit_per_Order = ratio (Profit_total g) (real (Orders g))\<rparr>)
       (rows (agg_profit_orders D))"

text \<open>
  The selection as the specification words it: the year argument is the sentinel "All" or
  converts to a year, and a row is selected when the four predicates hold together.
\<close>

definition year_filter :: "pylib \<Rightarrow> year_arg \<Rightarrow> exn + int option" where
  "year_filter L year =
     (if year = YStr ''All'' then Inr None
      else (case int_of_year L year of Inl e \<Rightarrow> Inl e | Inr y \<Rightarrow> Inr (Some y)))"

definition matches :: "string \<Rightarrow> string \<Rightarrow> string \<Rightarrow> int option \<Rightarrow> lrow \<Rightarrow> bool" where
  "matches region segment category yf r =
     ((region = ''All'' \<or> Region r = Some region)
      \<and> (segment = ''All'' \<or> Segment r = Some segment)
      \<and> (category = ''All'' \<or> Category r = Some category)
      \<and> (case yf of None \<Rightarrow> True | Some y \<Rightarrow> Year r = Some y))"

definition cond_mask :: "bool \<Rightarrow> (lrow \<Rightarrow> bool) \<Rightarrow> nat \<times> store \<Rightarrow> nat \<times> store" where
  "cond_mask c m p = (if c then getitem_mask m (fst p) (snd p) else p)"

definition points_to :: "nat \<times> store \<Rightarrow> lrow frame \<Rightarrow> bool" where
  "points_to p D = (fst p < nxt (snd p) \<and> heap (snd p) (fst p) = Some (OTable D))"

text \<open>
  The query as the specification words it, a function of the table and the selection: the
  aggregate result of the selected rows.
\<close>

definition query_result :: "lrow frame \<Rightarrow> result" where
  "query_result D =
     \<lparr>kpi_sales = sum_skipna (map Sales (rows D)),
      kpi_profit = sum_skipna (map Profit (rows D)),
      kpi_margin = ratio (sum_skipna (map Profit (rows D))) (sum_skipna (map Sales (rows D))),
      kpi_orders = nunique (map Order_ID (rows D)),
      kpi_aov = ratio (sum_skipna (map Sales (rows D))) (real (nunique (map Order_ID (rows D)))),
      fig_trend = sort_key key (rows (agg_sales_profit ''Month'' Month D)),
      fig_map = rows (agg_sales_profit ''State Abbr'' State_Abbr
                        (D\<lparr>rows := filter (\<lambda>r. State_Abbr r \<noteq> None) (rows D)\<rparr>)),
      fig_sub = sort_key Profit_sum (rows (agg_sales_profit ''Sub-Category'' Sub_Category D)),
      fig_disc = margins_of D,
      fig_ship = profit_per_order_of D\<rparr>"

definition query ::
  "pylib \<Rightarrow> lrow frame \<Rightarrow> string \<Rightarrow> string \<Rightarrow> string \<Rightarrow> year_arg \<Rightarrow> exn + result" where
  "query L T region segment category year =
     (case year_filter L year of
        Inl e \<Rightarrow> Inl e
      | Inr yf \<Rightarrow>
          Inr (query_result (T\<lparr>rows := filter (matches region segment category yf) (rows T)\<rparr>)))"

text \<open>
  Example data for the closed instances below: an instance of the library parameters (its
  timestamps count months, its \<open>int\<close> reads one year), one row of a cleaned file and a header.
\<close>

definition example_lib :: pylib where
  "example_lib =
     \<lparr>to_datetime = (\<lambda>x. case x of Ts t \<Rightarrow> Some t | _ \<Rightarrow> None),
      to_numeric = (\<lambda>x. case x of Num r \<Rightarrow> Some r | _ \<Rightarrow> None),
      astype_Int64 = (\<lambda>x. case x of Num r \<Rightarrow> Some (Some (floor r)) | Str s \<Rightarrow> None
                                 | _ \<Rightarrow> Some None),
      py_int = (\<lambda>s. if s = ''2016'' then Some 2016 else None),
      dt_year = (\<lambda>t. t div 12),
      dt_month_start = (\<lambda>t. t)\<rparr>"

definition example_row :: row where
  "example_row =
     \<lparr>Order_Date = Some 24195, Region = Some ''West'', Segment = Some ''Consumer'',
      Category = Some ''Furniture'', Sub_Category = Some ''Chairs'', Sales = Some 100,
      Profit = Some 20, Discount = Some 0, Ship_Mode = Some ''First Class'',
      State = Some ''Texas'', Order_ID = Some ''US-001'',
      Discount_Bucket = Some ''No Discount''\<rparr>"

definition example_columns :: "string list" where
  "example_columns = needed @ [''Discount Bucket'']"

definition loaded_columns :: "string list" where
  "loaded_columns = needed @ [''Discount Bucket'', ''Year'', ''Month'', ''State Abbr'']"

definition example_store :: "row list \<Rightarrow> store" where
  "example_store rs =
     \<lparr>heap = [DF \<mapsto> OTable \<lparr>columns = loaded_columns,
                                 rows = map (load_row example_lib) rs\<rparr>],
      nxt = Suc DF\<rparr>"

definition no_outputs :: outputs where
  "no_outputs = \<lparr>outdir_exists = False, cleaned_csv = None, profile_txt = None\<rparr>"

section \<open>Properties of discount_bucket\<close>

lemma discount_bucket_Num:
  "discount_bucket (Num r) =
     (if r = 0 then NO_DISCOUNT else if r \<le> 0.20 then LOW
      else if r \<le> 0.40 then MEDIUM else HIGH)"
  by (simp add: discount_bucket_def discount_bucket_try_def split: bool.splits)

lemma discount_bucket_not_Num:
  "\<forall>r. x \<noteq> Num r \<Longrightarrow> discount_bucket x = UNKNOWN"
  by (cases x) (simp_all add: discount_bucket_def discount_bucket_try_def)

text \<open>
  Claim C2. For every cell value \<open>d\<close>, \<open>discount_bucket d\<close> is one of the five labels:
  "Unknown" when \<open>d\<close> is missing or not a number (the comparison raises and the handler
  answers), "No Discount" when \<open>d = 0\<close>, "Low" when \<open>0 < d \<le> 0.20\<close>, "Medium" when
  \<open>0.20 < d \<le> 0.40\<close>, "High" when \<open>d > 0.40\<close>. Being a function of \<open>d\<close> alone, the result
  is deterministic.
\<close>

theorem discount_bucket_table:
  "discount_bucket d \<in> {UNKNOWN, NO_DISCOUNT, LOW, MEDIUM, HIGH}
   \<and> ((\<forall>q. d \<noteq> Num q) \<longrightarrow> discount_bucket d = UNKNOWN)
   \<and> (d = Num r \<and> r = 0 \<longrightarrow> discount_bucket d = NO_DISCOUNT)
   \<and> (d = Num r \<and> 0 < r \<and> r \<le> 0.20 \<longrightarrow> discount_bucket d = LOW)
   \<and> (d = Num r \<and> 0.20 < r \<and> r \<le> 0.40 \<longrightarrow> discount_bucket d = MEDIUM)
   \<and> (d = Num r \<and> 0.40 < r \<longrightarrow> discount_bucket d = HIGH)"
proof (cases "\<exists>q. d = Num q")
  case True
  then obtain q where "d = Num q" by blast
  then show ?thesis by (simp add: discount_bucket_Num)
next
  case False
  then have "discount_bucket d = UNKNOWN" by (simp add: discount_bucket_not_Num)
  with False show ?thesis by simp
qed

theorem discount_bucket_table_witness:
  "discount_bucket (Num 0.15) = LOW \<and> discount_bucket (Num 0.3) = MEDIUM
   \<and> discount_bucket (Num 0.5) = HIGH \<and> discount_bucket (Num 0) = NO_DISCOUNT
   \<and> discount_bucket (Str ''n/a'') = UNKNOWN \<and> discount_bucket NaN = UNKNOWN"
proof -
  have "discount_bucket (Num 0.15) = LOW"
    using discount_bucket_table [of "Num 0.15" "0.15"] by simp
  moreover have "discount_bucket (Num 0.3) = MEDIUM"
    using discount_bucket_table [of "Num 0.3" "0.3"] by simp
  moreover have "discount_bucket (Num 0.5) = HIGH"
    using discount_bucket_table [of "Num 0.5" "0.5"] by simp
  moreover have "discount_bucket (Num 0) = NO_DISCOUNT"
    using discount_bucket_table [of "Num 0" 0] by simp
  moreover have "discount_bucket (Str ''n/a'') = UNKNOWN"
    using discount_bucket_table [of "Str ''n/a''" 0] by simp
  moreover have "discount_bucket NaN = UNKNOWN"
    using discount_bucket_table [of NaN 0] by simp
  ultimately show ?thesis by simp
qed

text \<open>
  Claim C10. A negative discount fails the test \<open>x == 0\<close> and passes \<open>x <= 0.20\<close>, so it is
  labelled "Low", not "Unknown".
\<close>

theorem discount_bucket_negative:
  "r < 0 \<Longrightarrow> discount_bucket (Num r) = LOW"
  by (simp add: discount_bucket_Num)

theorem discount_bucket_negative_witness:
  "(- 0.1 :: real) < 0 \<and> discount_bucket (Num (- 0.1)) = LOW \<and> LOW \<noteq> UNKNOWN"
  using discount_bucket_negative [of "- 0.1"] by (simp add: LOW_def UNKNOWN_def)


section \<open>Column reconciliation\<close>

lemma map_of_comprehension:
  "map_of [(c, f c). c \<leftarrow> cs] c = (if c \<in> set cs then Some (f c) else None)"
  by (induction cs) auto

lemma map_of_comprehension_filter:
  "map_of [(c, f c). c \<leftarrow> cs, P c] c = (if c \<in> set cs \<and> P c then Some (f c) else None)"
  by (induction cs) auto

lemma rename_columns_comprehension:
  "columns (rename_columns (map_of [(c, f c). c \<leftarrow> columns df]) df) = map f (columns df)"
  by (simp add: rename_columns_def map_of_comprehension)

lemma rename_columns_renames:
  "columns (rename_columns
      (map_of [(c, the (map_of renames c)). c \<leftarrow> columns df, map_of renames c \<noteq> None]) df)
   = map canon (columns df)"
  by (auto simp add: rename_columns_def map_of_comprehension_filter canon_def)

lemma columns_normalize_columns:
  "columns (normalize_columns df) = map (canon \<circ> tidy) (columns df)"
  unfolding normalize_columns_def Let_def rename_columns_renames
  by (simp add: rename_columns_comprehension tidy_def)

lemma rows_normalize_columns: "rows (normalize_columns df) = rows df"
  by (simp add: normalize_columns_def rename_columns_def Let_def)

lemma py_split_dropWhile: "py_split (dropWhile py_isspace s) = py_split s"
  by (induction s rule: py_split.induct) auto

lemma py_split_snoc_space: "py_isspace c \<Longrightarrow> py_split (s @ [c]) = py_split s"
  by (induction s rule: py_split.induct) auto

lemma py_split_append_spaces: "\<forall>c \<in> set sp. py_isspace c \<Longrightarrow> py_split (s @ sp) = py_split s"
proof (induction sp rule: rev_induct)
  case Nil
  then show ?case by simp
next
  case (snoc c sp)
  have "py_split (s @ sp @ [c]) = py_split ((s @ sp) @ [c])" by simp
  also have "\<dots> = py_split (s @ sp)" using snoc.prems by (intro py_split_snoc_space) simp
  finally show ?case using snoc by simp
qed

lemma py_split_strip: "py_split (py_strip s) = py_split s"
proof -
  let ?t = "dropWhile py_isspace s"
  have "?t = rev (dropWhile py_isspace (rev ?t)) @ rev (takeWhile py_isspace (rev ?t))"
    by (metis rev_append rev_rev_ident takeWhile_dropWhile_id)
  moreover have "\<forall>c \<in> set (rev (takeWhile py_isspace (rev ?t))). py_isspace c"
    by (auto dest: set_takeWhileD)
  ultimately have "py_split ?t = py_split (rev (dropWhile py_isspace (rev ?t)))"
    using py_split_append_spaces by metis
  then show ?thesis by (simp add: py_strip_def py_split_dropWhile)
qed

lemma py_split_all_tokens: "\<forall>w \<in> set (py_split s). token w"
proof (induction s rule: py_split.induct)
  case 1
  then show ?case by simp
next
  case (2 c)
  then show ?case by (simp add: token_def)
next
  case (3 c d ds)
  show ?case
  proof (cases "py_isspace c")
    case True
    with 3 show ?thesis by simp
  next
    case c: False
    show ?thesis
    proof (cases "py_isspace d")
      case True
      with c 3 show ?thesis by (simp add: token_def)
    next
      case d: False
      show ?thesis
      proof (cases "py_split (d # ds)")
        case Nil
        with c d show ?thesis by (simp add: token_def)
      next
        case (Cons w ws)
        with c d 3 have "token w" and "\<forall>v \<in> set ws. token v" by simp_all
        with c d Cons show ?thesis by (simp add: token_def)
      qed
    qed
  qed
qed

lemma py_split_tokens: "w \<in> set (py_split s) \<Longrightarrow> token w"
  using py_split_all_tokens by blast

lemma py_split_token_space:
  "token w \<Longrightarrow> py_isspace c \<Longrightarrow> py_split (w @ c # s) = w # py_split (c # s)"
proof (induction w)
  case Nil
  then show ?case by (simp add: token_def)
next
  case (Cons a w)
  show ?case
  proof (cases w)
    case Nil
    with Cons.prems show ?thesis by (simp add: token_def)
  next
    case (Cons b w')
    with Cons.prems Cons.IH show ?thesis by (simp add: token_def)
  qed
qed

lemma py_split_space: "py_isspace c \<Longrightarrow> py_split (c # s) = py_split s"
  by (cases s) auto

lemma py_split_token: "token w \<Longrightarrow> py_split w = [w]"
  using py_split_token_space [of w "CHR '' ''" "[]"] py_split_snoc_space [of "CHR '' ''" w]
  by (simp add: py_isspace_def)

lemma py_split_join: "\<forall>w \<in> set ws. token w \<Longrightarrow> py_split (py_join '' '' ws) = ws"
  by (induction ws rule: induct_list012)
     (simp_all add: py_split_token py_split_token_space py_split_space py_isspace_def)

lemma tidy_idem: "tidy (tidy c) = tidy c"
  by (simp add: tidy_def py_split_strip py_split_join py_split_tokens)

lemma renames_targets:
  "\<forall>(k, t) \<in> set renames. tidy t = t \<and> canon t = t"
  by (simp add: renames_def tidy_def canon_def py_strip_def py_isspace_def)

lemma canon_fixed: "tidy (canon (tidy c)) = canon (tidy c) \<and> canon (canon (tidy c)) = canon (tidy c)"
proof (cases "map_of renames (tidy c)")
  case None
  then show ?thesis by (simp add: canon_def tidy_idem)
next
  case (Some t)
  then have "(tidy c, t) \<in> set renames" by (rule map_of_SomeD)
  with renames_targets have "tidy t = t \<and> canon t = t" by blast
  with Some show ?thesis by (simp add: canon_def)
qed

lemma normalize_columns_twice:
  "normalize_columns (normalize_columns df) = normalize_columns df"
proof -
  have "columns (normalize_columns (normalize_columns df)) = columns (normalize_columns df)"
    by (simp add: columns_normalize_columns canon_fixed)
  moreover have "rows (normalize_columns (normalize_columns df)) = rows (normalize_columns df)"
    by (simp add: rows_normalize_columns)
  moreover have "frame.more (normalize_columns (normalize_columns df))
      = frame.more (normalize_columns df)"
    by (simp add: normalize_columns_def rename_columns_def Let_def)
  ultimately show ?thesis by simp
qed

lemma normalize_columns_canonical:
  assumes "set (columns df) \<subseteq> snd ` set renames"
  shows "normalize_columns df = df"
proof -
  have "(canon \<circ> tidy) c = c" if "c \<in> set (columns df)" for c
  proof -
    from that assms obtain k where "(k, c) \<in> set renames" by auto
    with renames_targets have "tidy c = c \<and> canon c = c" by blast
    then show ?thesis by simp
  qed
  then have "map (canon \<circ> tidy) (columns df) = columns df"
    by (simp add: map_idI)
  then have "columns (normalize_columns df) = columns df"
    by (simp add: columns_normalize_columns)
  moreover have "rows (normalize_columns df) = rows df"
    by (simp add: rows_normalize_columns)
  moreover have "frame.more (normalize_columns df) = frame.more df"
    by (simp add: normalize_columns_def rename_columns_def Let_def)
  ultimately show ?thesis by simp
qed

text \<open>
  Claim C5. Column reconciliation is idempotent: for every frame, whatever its header,
  \<open>normalize_columns\<close> applied twice gives what it gives applied once; and a frame whose
  header names are all canonical names of the renaming table is left as it is.
\<close>

theorem normalize_columns_idempotent:
  "normalize_columns (normalize_columns df) = normalize_columns df
   \<and> (set (columns df) \<subseteq> snd ` set renames \<longrightarrow> normalize_columns df = df)"
  using normalize_columns_twice normalize_columns_canonical by blast

theorem normalize_columns_idempotent_witness:
  "set (columns \<lparr>columns = [''Order ID'', ''Sub-Category'', ''Sales''], rows = [[Num 1]]\<rparr>)
     \<subseteq> snd ` set renames
   \<and> normalize_columns \<lparr>columns = [''Order ID'', ''Sub-Category'', ''Sales''], rows = [[Num 1]]\<rparr>
       = \<lparr>columns = [''Order ID'', ''Sub-Category'', ''Sales''], rows = [[Num 1]]\<rparr>"
proof -
  have h: "set (columns \<lparr>columns = [''Order ID'', ''Sub-Category'', ''Sales''], rows = [[Num 1]]\<rparr>)
     \<subseteq> snd ` set renames"
    by (simp add: renames_def)
  with normalize_columns_idempotent
    [of "\<lparr>columns = [''Order ID'', ''Sub-Category'', ''Sales''], rows = [[Num 1]]\<rparr>"]
  show ?thesis by blast
qed

section \<open>The store during a query\<close>

lemma extends_refl: "extends st st"
  by (simp add: extends_def)

lemma extends_trans: "extends a b \<Longrightarrow> extends b c \<Longrightarrow> extends a c"
  by (auto simp: extends_def)

lemma extends_keeps:
  "extends st st' \<Longrightarrow> a < nxt st \<Longrightarrow> heap st a = Some ob \<Longrightarrow> heap st' a = Some ob \<and> a < nxt st'"
  by (auto simp: extends_def)

lemma alloc_fst: "fst (alloc ob st) = nxt st"
  by (simp add: alloc_def)

lemma alloc_heap: "heap (snd (alloc ob st)) (nxt st) = Some ob"
  by (simp add: alloc_def)

lemma alloc_nxt: "nxt (snd (alloc ob st)) = Suc (nxt st)"
  by (simp add: alloc_def)

lemma alloc_extends: "extends st (snd (alloc ob st))"
  by (simp add: alloc_def extends_def)

lemma getitem_mask_props:
  assumes "heap st a = Some (OTable D)"
  shows "heap (snd (getitem_mask m a st)) (fst (getitem_mask m a st))
           = Some (OTable (D\<lparr>rows := filter m (rows D)\<rparr>))"
    and "fst (getitem_mask m a st) < nxt (snd (getitem_mask m a st))"
    and "extends st (snd (getitem_mask m a st))"
  using assms by (simp_all add: getitem_mask_def alloc_def deref_def extends_def)

lemma trend_props:
  assumes "heap st dff = Some (OTable D)"
  shows "fst (trend dff st) = sort_key key (rows (agg_sales_profit ''Month'' Month D))"
    and "extends st (snd (trend dff st))"
  using assms by (simp_all add: trend_def alloc_def deref_def extends_def Let_def)

lemma state_map_props:
  assumes "heap st dff = Some (OTable D)"
  shows "fst (state_map dff st) =
           rows (agg_sales_profit ''State Abbr'' State_Abbr
                  (D\<lparr>rows := filter (\<lambda>r. State_Abbr r \<noteq> None) (rows D)\<rparr>))"
    and "extends st (snd (state_map dff st))"
  using assms
  by (simp_all add: state_map_def getitem_mask_def alloc_def deref_def extends_def Let_def)

lemma sub_category_props:
  assumes "heap st dff = Some (OTable D)"
  shows "fst (sub_category dff st) =
           sort_key Profit_sum (rows (agg_sales_profit ''Sub-Category'' Sub_Category D))"
    and "extends st (snd (sub_category dff st))"
  using assms by (simp_all add: sub_category_def alloc_def deref_def extends_def Let_def)

lemma collect_guarded:
  "collect (map (\<lambda>r. if d r \<noteq> 0 then truediv (n r) (d r) else Inr 0) gs)
     = Inr (map (\<lambda>r. ratio (n r) (d r)) gs)"
  by (induction gs) (simp_all add: truediv_def ratio_def)

lemma zip_map_self: "map f (zip xs (map g xs)) = map (\<lambda>x. f (x, g x)) xs"
  by (induction xs) simp_all

lemma discount_margin_props:
  assumes "heap st dff = Some (OTable D)"
  shows "fst (discount_margin dff st) = Inr (margins_of D)"
    and "extends st (snd (discount_margin dff st))"
  using assms
  by (simp_all add: discount_margin_def margins_of_def alloc_def deref_def extends_def Let_def
      collect_guarded with_margin_def zip_map_self)

lemma ship_profit_props:
  assumes "heap st dff = Some (OTable D)"
  shows "fst (ship_profit dff st) = Inr (profit_per_order_of D)"
    and "extends st (snd (ship_profit dff st))"
  using assms
  by (simp_all add: ship_profit_def profit_per_order_of_def alloc_def deref_def extends_def
      Let_def collect_guarded [where d = "\<lambda>r. real (Orders r)", simplified]
      with_profit_per_order_def zip_map_self)

lemma kpis_eq:
  assumes "heap st dff = Some (OTable D)"
  shows "kpis dff st =
           Inr (sum_skipna (map Sales (rows D)), sum_skipna (map Profit (rows D)),
                nunique (map Order_ID (rows D)),
                ratio (sum_skipna (map Profit (rows D))) (sum_skipna (map Sales (rows D))),
                ratio (sum_skipna (map Sales (rows D))) (real (nunique (map Order_ID (rows D)))))"
  using assms by (simp add: kpis_def deref_def Let_def truediv_def ratio_def)

lemma cond_mask_props:
  assumes "points_to p D"
  shows "points_to (cond_mask c m p) (D\<lparr>rows := filter (\<lambda>r. (c \<longrightarrow> m r)) (rows D)\<rparr>)"
    and "extends (snd p) (snd (cond_mask c m p))"
  using assms getitem_mask_props [of "snd p" "fst p" D m]
  by (auto simp: cond_mask_def points_to_def extends_refl)

lemma filter_df_props:
  assumes "heap st DF = Some (OTable T)" and "DF < nxt st"
  shows "extends st (snd (filter_df L region segment category year st))"
    and "year_filter L year = Inl e \<Longrightarrow> fst (filter_df L region segment category year st) = Inl e"
    and "year_filter L year = Inr yf \<Longrightarrow>
           \<exists>dff. fst (filter_df L region segment category year st) = Inr dff
              \<and> dff < nxt (snd (filter_df L region segment category year st))
              \<and> heap (snd (filter_df L region segment category year st)) dff
                  = Some (OTable (T\<lparr>rows := filter (matches region segment category yf) (rows T)\<rparr>))"
proof -
  have m0: "matches region segment category None =
      (\<lambda>r. (region \<noteq> ''All'' \<longrightarrow> Region r = Some region) \<and> (segment \<noteq> ''All'' \<longrightarrow> Segment r = Some segment) \<and> (category \<noteq> ''All'' \<longrightarrow> Category r = Some category))"
    by (auto simp: matches_def fun_eq_iff)
  have m1: "matches region segment category (Some y) =
      (\<lambda>r. (region \<noteq> ''All'' \<longrightarrow> Region r = Some region) \<and> (segment \<noteq> ''All'' \<longrightarrow> Segment r = Some segment) \<and> (category \<noteq> ''All'' \<longrightarrow> Category r = Some category) \<and> Year r = Some y)" for y
    by (auto simp: matches_def fun_eq_iff)
  define s1 where "s1 = alloc (OTable T) st"
  define s2 where "s2 = cond_mask (region \<noteq> ''All'') (\<lambda>r. Region r = Some region) s1"
  define s3 where "s3 = cond_mask (segment \<noteq> ''All'') (\<lambda>r. Segment r = Some segment) s2"
  define s4 where "s4 = cond_mask (category \<noteq> ''All'') (\<lambda>r. Category r = Some category) s3"
  have p1: "points_to s1 T" and e1: "extends st (snd s1)"
    by (simp_all add: s1_def points_to_def alloc_def extends_def)
  have p2: "points_to s2 (T\<lparr>rows := filter (\<lambda>r. region \<noteq> ''All'' \<longrightarrow> Region r = Some region) (rows T)\<rparr>)"
    and e2: "extends (snd s1) (snd s2)"
    unfolding s2_def using cond_mask_props [OF p1] by simp_all
  have p3: "points_to s3 (T\<lparr>rows := filter (\<lambda>r. (region \<noteq> ''All'' \<longrightarrow> Region r = Some region) \<and> (segment \<noteq> ''All'' \<longrightarrow> Segment r = Some segment)) (rows T)\<rparr>)"
    and e3: "extends (snd s2) (snd s3)"
    unfolding s3_def using cond_mask_props [OF p2] by simp_all
  have p4: "points_to s4 (T\<lparr>rows := filter (\<lambda>r. (region \<noteq> ''All'' \<longrightarrow> Region r = Some region) \<and> (segment \<noteq> ''All'' \<longrightarrow> Segment r = Some segment) \<and> (category \<noteq> ''All'' \<longrightarrow> Category r = Some category)) (rows T)\<rparr>)"
    and e4: "extends (snd s3) (snd s4)"
    unfolding s4_def using cond_mask_props [OF p3] by simp_all
  have e: "extends st (snd s4)"
    using e1 e2 e3 e4 extends_trans by blast
  have f: "filter_df L region segment category year st =
      (if year \<noteq> YStr ''All''
       then (case int_of_year L year of
               Inl e \<Rightarrow> (Inl e, snd s4)
             | Inr y \<Rightarrow> (case getitem_mask (\<lambda>r. Year r = Some y) (fst s4) (snd s4) of
                          (dff, st') \<Rightarrow> (Inr dff, st')))
       else (Inr (fst s4), snd s4))"
    using assms(1)
    by (simp add: filter_df_def s4_def s3_def s2_def s1_def cond_mask_def deref_def Let_def
        split_def split del: if_split cong del: if_weak_cong sum.case_cong_weak)
  show "extends st (snd (filter_df L region segment category year st))"
  proof (cases "year \<noteq> YStr ''All''")
    case False
    with f e show ?thesis by simp
  next
    case True
    show ?thesis
    proof (cases "int_of_year L year")
      case (Inl x)
      with True f e show ?thesis by simp
    next
      case (Inr y)
      have "extends (snd s4) (snd (getitem_mask (\<lambda>r. Year r = Some y) (fst s4) (snd s4)))"
        using p4 by (intro getitem_mask_props(3)) (simp add: points_to_def)
      with e have "extends st (snd (getitem_mask (\<lambda>r. Year r = Some y) (fst s4) (snd s4)))"
        by (rule extends_trans)
      with True Inr f show ?thesis by (simp add: split_def)
    qed
  qed
  show "fst (filter_df L region segment category year st) = Inl e" if "year_filter L year = Inl e"
    using that f by (auto simp: year_filter_def split: if_splits sum.splits)
  show "\<exists>dff. fst (filter_df L region segment category year st) = Inr dff
              \<and> dff < nxt (snd (filter_df L region segment category year st))
              \<and> heap (snd (filter_df L region segment category year st)) dff
                  = Some (OTable (T\<lparr>rows := filter (matches region segment category yf) (rows T)\<rparr>))"
    if y: "year_filter L year = Inr yf"
  proof (cases "year \<noteq> YStr ''All''")
    case False
    with y have "yf = None" by (simp add: year_filter_def)
    with False f p4 show ?thesis by (simp add: m0 points_to_def)
  next
    case True
    with y obtain n where n: "int_of_year L year = Inr n" "yf = Some n"
      by (auto simp: year_filter_def split: sum.splits)
    from p4 have h: "heap (snd s4) (fst s4) = Some (OTable (T\<lparr>rows := filter (\<lambda>r. (region \<noteq> ''All'' \<longrightarrow> Region r = Some region) \<and> (segment \<noteq> ''All'' \<longrightarrow> Segment r = Some segment) \<and> (category \<noteq> ''All'' \<longrightarrow> Category r = Some category)) (rows T)\<rparr>))"
      by (simp add: points_to_def)
    show ?thesis
      using True n f getitem_mask_props(1,2) [OF h, of "\<lambda>r. Year r = Some n"]
      by (simp add: split_def m1)
  qed
qed

lemma update_after_filter:
  assumes f: "fst (filter_df L region segment category year st) = Inr dff"
    and h: "heap (snd (filter_df L region segment category year st)) dff = Some (OTable D)"
    and n: "dff < nxt (snd (filter_df L region segment category year st))"
  shows "fst (update L region segment category year st) = Inr (query_result D)"
    and "extends (snd (filter_df L region segment category year st))
           (snd (update L region segment category year st))"
proof -
  define st1 where "st1 = snd (filter_df L region segment category year st)"
  define st2 where "st2 = snd (trend dff st1)"
  define st3 where "st3 = snd (state_map dff st2)"
  define st4 where "st4 = snd (sub_category dff st3)"
  define st5 where "st5 = snd (discount_margin dff st4)"
  define st6 where "st6 = snd (ship_profit dff st5)"
  have h1: "heap st1 dff = Some (OTable D)" and n1: "dff < nxt st1"
    using h n by (simp_all add: st1_def)
  have e2: "extends st1 st2"
    unfolding st2_def by (rule trend_props(2) [OF h1])
  have h2: "heap st2 dff = Some (OTable D)" and n2: "dff < nxt st2"
    using extends_keeps [OF e2 n1 h1] by simp_all
  have e3: "extends st2 st3"
    unfolding st3_def by (rule state_map_props(2) [OF h2])
  have h3: "heap st3 dff = Some (OTable D)" and n3: "dff < nxt st3"
    using extends_keeps [OF e3 n2 h2] by simp_all
  have e4: "extends st3 st4"
    unfolding st4_def by (rule sub_category_props(2) [OF h3])
  have h4: "heap st4 dff = Some (OTable D)" and n4: "dff < nxt st4"
    using extends_keeps [OF e4 n3 h3] by simp_all
  have e5: "extends st4 st5"
    unfolding st5_def by (rule discount_margin_props(2) [OF h4])
  have h5: "heap st5 dff = Some (OTable D)" and n5: "dff < nxt st5"
    using extends_keeps [OF e5 n4 h4] by simp_all
  have e6: "extends st5 st6"
    unfolding st6_def by (rule ship_profit_props(2) [OF h5])
  have u: "update L region segment category year st = (Inr (query_result D), st6)"
    using f kpis_eq [OF h1] trend_props(1) [OF h1] state_map_props(1) [OF h2]
      sub_category_props(1) [OF h3] discount_margin_props(1) [OF h4]
      ship_profit_props(1) [OF h5]
    by (simp add: update_def split_def Let_def query_result_def
        st1_def [symmetric] st2_def [symmetric] st3_def [symmetric] st4_def [symmetric]
        st5_def [symmetric] st6_def [symmetric])
  show "fst (update L region segment category year st) = Inr (query_result D)"
    using u by simp
  have "extends st1 st6"
    using e2 e3 e4 e5 e6 extends_trans by blast
  then show "extends (snd (filter_df L region segment category year st))
           (snd (update L region segment category year st))"
    using u by (simp add: st1_def)
qed

lemma update_props:
  assumes "heap st DF = Some (OTable T)" and "DF < nxt st"
  shows "extends st (snd (update L region segment category year st))"
    and "fst (update L region segment category year st) = query L T region segment category year"
proof -
  let ?f = "filter_df L region segment category year st"
  show "fst (update L region segment category year st) = query L T region segment category year"
  proof (cases "year_filter L year")
    case (Inl e)
    then have "fst ?f = Inl e" by (rule filter_df_props(2) [OF assms])
    then have "fst (update L region segment category year st) = Inl e"
      by (simp add: update_def split_def)
    with Inl show ?thesis by (simp add: query_def)
  next
    case (Inr yf)
    from filter_df_props(3) [OF assms Inr] obtain dff where
      "fst ?f = Inr dff" "dff < nxt (snd ?f)"
      "heap (snd ?f) dff =
         Some (OTable (T\<lparr>rows := filter (matches region segment category yf) (rows T)\<rparr>))"
      by blast
    then show ?thesis
      using update_after_filter(1) Inr by (simp add: query_def)
  qed
  show "extends st (snd (update L region segment category year st))"
  proof (cases "year_filter L year")
    case (Inl e)
    then have "fst ?f = Inl e" by (rule filter_df_props(2) [OF assms])
    then have "snd (update L region segment category year st) = snd ?f"
      by (simp add: update_def split_def)
    then show ?thesis using filter_df_props(1) [OF assms] by simp
  next
    case (Inr yf)
    from filter_df_props(3) [OF assms Inr] obtain dff where
      "fst ?f = Inr dff" "dff < nxt (snd ?f)"
      "heap (snd ?f) dff =
         Some (OTable (T\<lparr>rows := filter (matches region segment category yf) (rows T)\<rparr>))"
      by blast
    then have "extends (snd ?f) (snd (update L region segment category year st))"
      using update_after_filter(2) by blast
    with filter_df_props(1) [OF assms] show ?thesis by (rule extends_trans)
  qed
qed

section \<open>Properties of a query\<close>

lemma nunique_card: "nunique xs = card {v. Some v \<in> set xs}"
proof -
  have "set (List.map_filter id xs) = {v. Some v \<in> set xs}"
    by (induction xs) (auto simp: List.map_filter_simps split: option.splits)
  then show ?thesis
    by (simp add: nunique_def length_remdups_card_conv)
qed

lemma sum_skipna_append: "sum_skipna (xs @ ys) = sum_skipna xs + sum_skipna ys"
  by (simp add: sum_skipna_def)

lemma sum_skipna_Cons: "sum_skipna (x # xs) = (case x of None \<Rightarrow> 0 | Some v \<Rightarrow> v) + sum_skipna xs"
  by (simp add: sum_skipna_def)

lemma ratio_zero: "ratio a 0 = 0"
  by (simp add: ratio_def)

lemma update_result:
  assumes "heap st DF = Some (OTable T)" and "DF < nxt st" and "year_filter L year = Inr yf"
  shows "fst (update L region segment category year st) =
           Inr (query_result (T\<lparr>rows := filter (matches region segment category yf) (rows T)\<rparr>))"
  using update_props(2) [OF assms(1,2)] assms(3) by (simp add: query_def)

lemma update_errors:
  assumes "heap st DF = Some (OTable T)" and "DF < nxt st"
    and "fst (update L region segment category year st) = Inl e"
  shows "\<exists>s. e = InvalidLiteral s"
  using update_props(2) [OF assms(1,2)] assms(3)
  by (auto simp: query_def year_filter_def int_of_year_def
      split: sum.splits if_splits year_arg.splits option.splits)

text \<open>
  Claim C1. Whatever the selection, the three ratios of a query are guarded: the query never
  ends in a division by zero; the margin is 0 when total sales are 0, the average order
  value is 0 when there are no orders, and in the two grouped figures the margin of a
  bucket without sales and the profit per order of a ship mode without orders are 0. When
  the selection keeps no row, sales and orders are 0 and so are both ratios.
\<close>

theorem ratios_guarded:
  assumes "heap st DF = Some (OTable T)" and "DF < nxt st"
  shows "fst (update L region segment category year st) \<noteq> Inl ZeroDivisionError
    \<and> (\<forall>res. fst (update L region segment category year st) = Inr res \<longrightarrow>
          (kpi_sales res = 0 \<longrightarrow> kpi_margin res = 0)
        \<and> (kpi_orders res = 0 \<longrightarrow> kpi_aov res = 0)
        \<and> (\<forall>g \<in> set (fig_disc res). Sales_sum g = 0 \<longrightarrow> Margin g = 0)
        \<and> (\<forall>g \<in> set (fig_ship res). Orders g = 0 \<longrightarrow> Profit_per_Order g = 0))
    \<and> (\<forall>yf. year_filter L year = Inr yf \<longrightarrow>
          (\<exists>res. fst (update L region segment category year st) = Inr res
             \<and> (filter (matches region segment category yf) (rows T) = [] \<longrightarrow>
                  kpi_sales res = 0 \<and> kpi_orders res = 0
                  \<and> kpi_margin res = 0 \<and> kpi_aov res = 0)))"
proof (intro conjI allI impI)
  show "fst (update L region segment category year st) \<noteq> Inl ZeroDivisionError"
    using update_errors [OF assms, of L region segment category year ZeroDivisionError] by auto
next
  fix res
  assume r: "fst (update L region segment category year st) = Inr res"
  then obtain yf where "year_filter L year = Inr yf"
    using update_props(2) [OF assms] by (auto simp: query_def split: sum.splits)
  from update_result [OF assms this] r
  obtain D where res: "res = query_result D" by auto
  { assume "kpi_sales res = 0"
    then show "kpi_margin res = 0" by (simp add: res query_result_def ratio_def) }
  { assume "kpi_orders res = 0"
    then show "kpi_aov res = 0" by (simp add: res query_result_def ratio_def) }
  show "\<forall>g \<in> set (fig_disc res). Sales_sum g = 0 \<longrightarrow> Margin g = 0"
    by (auto simp: res query_result_def margins_of_def ratio_def)
  show "\<forall>g \<in> set (fig_ship res). Orders g = 0 \<longrightarrow> Profit_per_Order g = 0"
    by (auto simp: res query_result_def profit_per_order_of_def ratio_def)
next
  fix yf
  assume "year_filter L year = Inr yf"
  from update_result [OF assms this]
  show "\<exists>res. fst (update L region segment category year st) = Inr res
             \<and> (filter (matches region segment category yf) (rows T) = [] \<longrightarrow>
                  kpi_sales res = 0 \<and> kpi_orders res = 0
                  \<and> kpi_margin res = 0 \<and> kpi_aov res = 0)"
    by (simp add: query_result_def sum_skipna_def nunique_def List.map_filter_def ratio_def)
qed

text \<open>
  Claim C3. With "All" on the four dimensions \<open>filter_df\<close> returns a table equal to the loaded
  one, no row filtered out, and the five numbers of the query are the aggregates of the
  whole table.
\<close>

theorem all_selection_unfiltered:
  assumes "heap st DF = Some (OTable T)" and "DF < nxt st"
  shows "\<exists>dff res.
           fst (filter_df L ''All'' ''All'' ''All'' (YStr ''All'') st) = Inr dff
         \<and> heap (snd (filter_df L ''All'' ''All'' ''All'' (YStr ''All'') st)) dff = Some (OTable T)
         \<and> fst (update L ''All'' ''All'' ''All'' (YStr ''All'') st) = Inr res
         \<and> kpi_sales res = sum_skipna (map Sales (rows T))
         \<and> kpi_profit res = sum_skipna (map Profit (rows T))
         \<and> kpi_orders res = nunique (map Order_ID (rows T))
         \<and> kpi_margin res = ratio (sum_skipna (map Profit (rows T))) (sum_skipna (map Sales (rows T)))
         \<and> kpi_aov res = ratio (sum_skipna (map Sales (rows T)))
                            (real (nunique (map Order_ID (rows T))))"
proof -
  have y: "year_filter L (YStr ''All'') = Inr None"
    by (simp add: year_filter_def)
  have m: "filter (matches ''All'' ''All'' ''All'' None) (rows T) = rows T"
    by (simp add: matches_def)
  from filter_df_props(3) [OF assms y, of "''All''" "''All''" "''All''"] m
  obtain dff where "fst (filter_df L ''All'' ''All'' ''All'' (YStr ''All'') st) = Inr dff"
    and "heap (snd (filter_df L ''All'' ''All'' ''All'' (YStr ''All'') st)) dff = Some (OTable T)"
    by auto
  moreover from update_result [OF assms y, of "''All''" "''All''" "''All''"] m
  have "fst (update L ''All'' ''All'' ''All'' (YStr ''All'') st) = Inr (query_result T)"
    by simp
  ultimately show ?thesis by (simp add: query_result_def)
qed

text \<open>
  Claim C8. The Orders number of a query is the number of distinct order ids among the
  selected rows; in particular, when the selected rows are two rows with one order id, it
  is 1.
\<close>

theorem orders_counts_distinct_ids:
  assumes "heap st DF = Some (OTable T)" and "DF < nxt st"
    and "year_filter L year = Inr yf"
  shows "\<exists>res. fst (update L region segment category year st) = Inr res
           \<and> kpi_orders res =
               card {oid. \<exists>q \<in> set (rows T). matches region segment category yf q
                                               \<and> Order_ID q = Some oid}
           \<and> (\<forall>a b oid. filter (matches region segment category yf) (rows T) = [a, b]
                  \<and> Order_ID a = Some oid \<and> Order_ID b = Some oid \<longrightarrow> kpi_orders res = 1)"
proof -
  let ?sel = "filter (matches region segment category yf) (rows T)"
  have "{v. Some v \<in> set (map Order_ID ?sel)}
      = {oid. \<exists>q \<in> set (rows T). matches region segment category yf q \<and> Order_ID q = Some oid}"
    by force
  then have "nunique (map Order_ID ?sel)
      = card {oid. \<exists>q \<in> set (rows T). matches region segment category yf q \<and> Order_ID q = Some oid}"
    by (simp only: nunique_card)
  moreover have "nunique (map Order_ID ?sel) = 1"
    if "?sel = [a, b] \<and> Order_ID a = Some oid \<and> Order_ID b = Some oid" for a b oid
    using that by (simp add: nunique_def List.map_filter_def)
  moreover have "kpi_orders (query_result (T\<lparr>rows := ?sel\<rparr>)) = nunique (map Order_ID ?sel)"
    by (simp add: query_result_def)
  ultimately have "kpi_orders (query_result (T\<lparr>rows := ?sel\<rparr>)) =
               card {oid. \<exists>q \<in> set (rows T). matches region segment category yf q
                                               \<and> Order_ID q = Some oid}
           \<and> (\<forall>a b oid. ?sel = [a, b]
                  \<and> Order_ID a = Some oid \<and> Order_ID b = Some oid \<longrightarrow>
                  kpi_orders (query_result (T\<lparr>rows := ?sel\<rparr>)) = 1)"
    by metis
  with update_result [OF assms] show ?thesis by blast
qed


lemmas example_defs =
  query_def year_filter_def int_of_year_def matches_def query_result_def load_row_def
  example_row_def example_lib_def map_state_def STATE_TO_ABBR_def sum_skipna_def nunique_def
  List.map_filter_def ratio_def agg_sales_profit_def group_keys_def group_rows_def
  margins_of_def profit_per_order_of_def agg_profit_orders_def needed_def loaded_columns_def

lemma example_store_loaded:
  "heap (example_store rs) DF
     = Some (OTable \<lparr>columns = loaded_columns, rows = map (load_row example_lib) rs\<rparr>)"
  "DF < nxt (example_store rs)"
  by (simp_all add: example_store_def)

theorem ratios_guarded_witness:
  "heap (example_store [example_row\<lparr>Sales := None, Order_ID := None\<rparr>]) DF
     = Some (OTable \<lparr>columns = loaded_columns,
          rows = map (load_row example_lib) [example_row\<lparr>Sales := None, Order_ID := None\<rparr>]\<rparr>)
   \<and> DF < nxt (example_store [example_row\<lparr>Sales := None, Order_ID := None\<rparr>])
   \<and> fst (update example_lib ''All'' ''All'' ''All'' (YStr ''All'')
             (example_store [example_row\<lparr>Sales := None, Order_ID := None\<rparr>]))
       = Inr \<lparr>kpi_sales = 0, kpi_profit = 20, kpi_margin = 0, kpi_orders = 0, kpi_aov = 0,
              fig_trend = [\<lparr>key = 24195, Sales_sum = 0, Profit_sum = 20\<rparr>],
              fig_map = [\<lparr>key = ''TX'', Sales_sum = 0, Profit_sum = 20\<rparr>],
              fig_sub = [\<lparr>key = ''Chairs'', Sales_sum = 0, Profit_sum = 20\<rparr>],
              fig_disc = [\<lparr>key = ''No Discount'', Sales_sum = 0, Profit_sum = 20, Margin = 0\<rparr>],
              fig_ship = [\<lparr>Ship_Mode_key = ''First Class'', Profit_total = 20, Orders = 0,
                           Profit_per_Order = 0\<rparr>]\<rparr>"
proof -
  let ?rs = "[example_row\<lparr>Sales := None, Order_ID := None\<rparr>]"
  note h = example_store_loaded [of ?rs]
  have e: "fst (update example_lib ''All'' ''All'' ''All'' (YStr ''All'') (example_store ?rs))
      = Inr \<lparr>kpi_sales = 0, kpi_profit = 20,
              kpi_margin = kpi_margin (query_result \<lparr>columns = loaded_columns,
                  rows = map (load_row example_lib) ?rs\<rparr>),
              kpi_orders = 0,
              kpi_aov = kpi_aov (query_result \<lparr>columns = loaded_columns,
                  rows = map (load_row example_lib) ?rs\<rparr>),
              fig_trend = [\<lparr>key = 24195, Sales_sum = 0, Profit_sum = 20\<rparr>],
              fig_map = [\<lparr>key = ''TX'', Sales_sum = 0, Profit_sum = 20\<rparr>],
              fig_sub = [\<lparr>key = ''Chairs'', Sales_sum = 0, Profit_sum = 20\<rparr>],
              fig_disc = [\<lparr>key = ''No Discount'', Sales_sum = 0, Profit_sum = 20, Margin = 0\<rparr>],
              fig_ship = [\<lparr>Ship_Mode_key = ''First Class'', Profit_total = 20, Orders = 0,
                           Profit_per_Order = 0\<rparr>]\<rparr>"
    unfolding update_props(2) [OF h] by (simp add: example_defs)
  from ratios_guarded [OF h, of example_lib "''All''" "''All''" "''All''" "YStr ''All''"] e
  have "kpi_margin (query_result \<lparr>columns = loaded_columns,
                  rows = map (load_row example_lib) ?rs\<rparr>) = 0"
    and "kpi_aov (query_result \<lparr>columns = loaded_columns,
                  rows = map (load_row example_lib) ?rs\<rparr>) = 0"
    by simp_all
  with h e show ?thesis by simp
qed

theorem all_selection_unfiltered_witness:
  "heap (example_store [example_row, example_row\<lparr>State := Some ''Narnia'', Sales := Some 50\<rparr>]) DF
     = Some (OTable \<lparr>columns = loaded_columns,
          rows = map (load_row example_lib)
                   [example_row, example_row\<lparr>State := Some ''Narnia'', Sales := Some 50\<rparr>]\<rparr>)
   \<and> DF < nxt (example_store [example_row, example_row\<lparr>State := Some ''Narnia'', Sales := Some 50\<rparr>])
   \<and> (\<exists>res. fst (update example_lib ''All'' ''All'' ''All'' (YStr ''All'')
                (example_store [example_row, example_row\<lparr>State := Some ''Narnia'', Sales := Some 50\<rparr>]))
            = Inr res
          \<and> kpi_sales res = 150 \<and> kpi_profit res = 40 \<and> kpi_orders res = 1
          \<and> kpi_margin res = 4 / 15 \<and> kpi_aov res = 150)"
proof -
  let ?rs = "[example_row, example_row\<lparr>State := Some ''Narnia'', Sales := Some 50\<rparr>]"
  note h = example_store_loaded [of ?rs]
  from all_selection_unfiltered [OF h, of example_lib] obtain res where
    "fst (update example_lib ''All'' ''All'' ''All'' (YStr ''All'') (example_store ?rs)) = Inr res"
    "kpi_sales res = sum_skipna (map Sales (map (load_row example_lib) ?rs))"
    "kpi_profit res = sum_skipna (map Profit (map (load_row example_lib) ?rs))"
    "kpi_orders res = nunique (map Order_ID (map (load_row example_lib) ?rs))"
    "kpi_margin res = ratio (sum_skipna (map Profit (map (load_row example_lib) ?rs)))
                        (sum_skipna (map Sales (map (load_row example_lib) ?rs)))"
    "kpi_aov res = ratio (sum_skipna (map Sales (map (load_row example_lib) ?rs)))
                     (real (nunique (map Order_ID (map (load_row example_lib) ?rs))))"
    by auto
  then have "fst (update example_lib ''All'' ''All'' ''All'' (YStr ''All'') (example_store ?rs)) = Inr res
          \<and> kpi_sales res = 150 \<and> kpi_profit res = 40 \<and> kpi_orders res = 1
          \<and> kpi_margin res = 4 / 15 \<and> kpi_aov res = 150"
    by (simp add: example_defs)
  with h show ?thesis by blast
qed

theorem orders_counts_distinct_ids_witness:
  "heap (example_store [example_row, example_row\<lparr>Sales := Some 50\<rparr>]) DF
     = Some (OTable \<lparr>columns = loaded_columns,
          rows = map (load_row example_lib) [example_row, example_row\<lparr>Sales := Some 50\<rparr>]\<rparr>)
   \<and> DF < nxt (example_store [example_row, example_row\<lparr>Sales := Some 50\<rparr>])
   \<and> year_filter example_lib (YStr ''2016'') = Inr (Some 2016)
   \<and> Order_ID (load_row example_lib example_row) = Some ''US-001''
   \<and> Order_ID (load_row example_lib (example_row\<lparr>Sales := Some 50\<rparr>)) = Some ''US-001''
   \<and> (\<exists>res. fst (update example_lib ''West'' ''All'' ''All'' (YStr ''2016'')
                (example_store [example_row, example_row\<lparr>Sales := Some 50\<rparr>])) = Inr res
          \<and> kpi_orders res = 1)"
proof -
  let ?rs = "[example_row, example_row\<lparr>Sales := Some 50\<rparr>]"
  note h = example_store_loaded [of ?rs]
  have y: "year_filter example_lib (YStr ''2016'') = Inr (Some 2016)"
    by (simp add: year_filter_def int_of_year_def example_lib_def)
  have f: "filter (matches ''West'' ''All'' ''All'' (Some 2016)) (map (load_row example_lib) ?rs)
      = [load_row example_lib example_row, load_row example_lib (example_row\<lparr>Sales := Some 50\<rparr>)]"
    by (simp add: matches_def load_row_def example_row_def example_lib_def)
  have i: "Order_ID (load_row example_lib example_row) = Some ''US-001''"
    "Order_ID (load_row example_lib (example_row\<lparr>Sales := Some 50\<rparr>)) = Some ''US-001''"
    by (simp_all add: load_row_def example_row_def)
  from orders_counts_distinct_ids [OF h y, of "''West''" "''All''" "''All''"]
  obtain res where r: "fst (update example_lib ''West'' ''All'' ''All'' (YStr ''2016'')
                (example_store ?rs)) = Inr res"
    and "\<forall>a b oid. filter (matches ''West'' ''All'' ''All'' (Some 2016))
                        (map (load_row example_lib) ?rs) = [a, b]
                  \<and> Order_ID a = Some oid \<and> Order_ID b = Some oid \<longrightarrow> kpi_orders res = 1"
    by auto
  with f i have "kpi_orders res = 1" by blast
  with r h y i show ?thesis by blast
qed

lemma filter_df_fresh:
  "fst (filter_df L region segment category year st) = Inr dff \<Longrightarrow> nxt st \<le> dff"
  by (auto simp: filter_df_def getitem_mask_def alloc_def Let_def split_def
      split: if_splits sum.splits)

text \<open>
  Claim C9. A query does not change the loaded table: after \<open>filter_df\<close> and after \<open>update\<close>
  the object \<open>DF\<close> names is the table it was, and so is every object that was alive before
  the call; the frame \<open>filter_df\<close> returns is a new object, not \<open>DF\<close>. The result of \<open>update\<close>
  is a function of the table and the selection alone, so the same call made again returns
  the same result.
\<close>

theorem query_leaves_table_unchanged:
  assumes "heap st DF = Some (OTable T)" and "DF < nxt st"
  shows "heap (snd (filter_df L region segment category year st)) DF = Some (OTable T)
    \<and> (\<forall>dff. fst (filter_df L region segment category year st) = Inr dff \<longrightarrow> dff \<noteq> DF)
    \<and> heap (snd (update L region segment category year st)) DF = Some (OTable T)
    \<and> (\<forall>a < nxt st. heap (snd (update L region segment category year st)) a = heap st a)
    \<and> fst (update L region segment category year st) = query L T region segment category year
    \<and> fst (update L region segment category year
               (snd (update L region segment category year st)))
        = fst (update L region segment category year st)"
proof -
  let ?st' = "snd (update L region segment category year st)"
  have f: "extends st (snd (filter_df L region segment category year st))"
    by (rule filter_df_props(1) [OF assms])
  have u: "extends st ?st'"
    by (rule update_props(1) [OF assms])
  have k: "heap ?st' DF = Some (OTable T)" "DF < nxt ?st'"
    using extends_keeps [OF u assms(2,1)] by simp_all
  have "heap (snd (filter_df L region segment category year st)) DF = Some (OTable T)"
    using extends_keeps [OF f assms(2,1)] by simp
  moreover have "\<forall>dff. fst (filter_df L region segment category year st) = Inr dff \<longrightarrow> dff \<noteq> DF"
    using filter_df_fresh [of L region segment category year st] assms(2) by auto
  moreover have "\<forall>a < nxt st. heap ?st' a = heap st a"
    using u by (simp add: extends_def)
  moreover have "fst (update L region segment category year st)
      = query L T region segment category year"
    by (rule update_props(2) [OF assms])
  moreover have "fst (update L region segment category year ?st')
      = query L T region segment category year"
    by (rule update_props(2) [OF k])
  ultimately show ?thesis using k(1) by simp
qed

theorem query_leaves_table_unchanged_witness:
  "heap (example_store [example_row]) DF
     = Some (OTable \<lparr>columns = loaded_columns, rows = map (load_row example_lib) [example_row]\<rparr>)
   \<and> DF < nxt (example_store [example_row])
   \<and> heap (snd (update example_lib ''West'' ''All'' ''All'' (YStr ''2016'')
                  (example_store [example_row]))) DF
       = Some (OTable \<lparr>columns = loaded_columns, rows = map (load_row example_lib) [example_row]\<rparr>)
   \<and> fst (update example_lib ''West'' ''All'' ''All'' (YStr ''2016'')
            (snd (update example_lib ''West'' ''All'' ''All'' (YStr ''2016'')
                    (example_store [example_row]))))
       = fst (update example_lib ''West'' ''All'' ''All'' (YStr ''2016'') (example_store [example_row]))"
  using query_leaves_table_unchanged [OF example_store_loaded [of "[example_row]"],
      of example_lib "''West''" "''All''" "''All''" "YStr ''2016''"]
    example_store_loaded [of "[example_row]"]
  by blast

lemma ids_of_selected:
  "{v. Some v \<in> set (map f (filter P (map g zs)))} = {v. \<exists>q \<in> set zs. P (g q) \<and> f (g q) = Some v}"
proof (intro set_eqI iffI)
  fix v
  assume "v \<in> {v. Some v \<in> set (map f (filter P (map g zs)))}"
  then have "Some v \<in> f ` set (filter P (map g zs))" by simp
  then obtain x where "x \<in> set (filter P (map g zs))" and "f x = Some v"
    by (metis imageE)
  then obtain q where "q \<in> set zs" and "x = g q" and "P (g q)"
    by auto
  with \<open>f x = Some v\<close> show "v \<in> {v. \<exists>q \<in> set zs. P (g q) \<and> f (g q) = Some v}"
    by auto
next
  fix v
  assume "v \<in> {v. \<exists>q \<in> set zs. P (g q) \<and> f (g q) = Some v}"
  then obtain q where "q \<in> set zs" and "P (g q)" and "f (g q) = Some v"
    by auto
  then have "g q \<in> set (filter P (map g zs))" by simp
  with \<open>f (g q) = Some v\<close> have "Some v \<in> f ` set (filter P (map g zs))"
    by (metis image_eqI)
  then show "v \<in> {v. Some v \<in> set (map f (filter P (map g zs)))}"
    by simp
qed


lemma startup_loaded:
  assumes "startup L (Inr csv) = Inr st"
  shows "heap st DF = Some (OTable \<lparr>columns = add_column ''State Abbr''
                 (add_column ''Month'' (add_column ''Year'' (columns csv))),
               rows = map (load_row L) (rows csv)\<rparr>)"
    and "DF < nxt st"
  using assms
  by (auto simp: startup_def load_data_def Let_def split: if_splits)

lemma map_state_unmapped:
  "s \<notin> Some ` fst ` set STATE_TO_ABBR \<Longrightarrow> map_state s = None"
  by (cases s) (auto simp: map_state_def map_of_eq_None_iff image_iff)

text \<open>
  Claim C7. A row whose State is no key of \<open>STATE_TO_ABBR\<close> is loaded with no State
  Abbreviation. In a query that selects it, the by-state figure is the one the table
  without the row gives, while the row's Sales and Profit are part of the totals and its
  order id is one of the ids the Orders number counts.
\<close>

theorem unmapped_state_row:
  assumes "startup L (Inr \<lparr>columns = cs, rows = xs @ r # ys\<rparr>) = Inr st"
    and "startup L (Inr \<lparr>columns = cs, rows = xs @ ys\<rparr>) = Inr st'"
    and "State r \<notin> Some ` fst ` set STATE_TO_ABBR"
    and "year_filter L year = Inr yf"
    and "matches region segment category yf (load_row L r)"
  shows "State_Abbr (load_row L r) = None
    \<and> (\<exists>res res'.
          fst (update L region segment category year st) = Inr res
        \<and> fst (update L region segment category year st') = Inr res'
        \<and> fig_map res = fig_map res'
        \<and> kpi_sales res = kpi_sales res' + (case Sales r of None \<Rightarrow> 0 | Some v \<Rightarrow> v)
        \<and> kpi_profit res = kpi_profit res' + (case Profit r of None \<Rightarrow> 0 | Some v \<Rightarrow> v)
        \<and> kpi_orders res' =
            card {oid. \<exists>q \<in> set (xs @ ys). matches region segment category yf (load_row L q)
                                             \<and> Order_ID q = Some oid}
        \<and> kpi_orders res =
            card ({oid. \<exists>q \<in> set (xs @ ys). matches region segment category yf (load_row L q)
                                              \<and> Order_ID q = Some oid}
                  \<union> {oid. Order_ID r = Some oid}))"
proof -
  let ?m = "matches region segment category yf"
  let ?cs = "add_column ''State Abbr'' (add_column ''Month'' (add_column ''Year'' cs))"
  let ?A = "filter ?m (map (load_row L) xs)"
  let ?B = "filter ?m (map (load_row L) ys)"
  let ?r = "load_row L r"
  have a: "State_Abbr ?r = None"
    using assms(3) by (simp add: load_row_def map_state_unmapped)
  have id: "Order_ID (load_row L q) = Order_ID q" for q
    by (simp add: load_row_def)
  have sp: "Sales ?r = Sales r" "Profit ?r = Profit r"
    by (simp_all add: load_row_def)
  note l = startup_loaded [OF assms(1)]
  note l' = startup_loaded [OF assms(2)]
  have sel: "filter ?m (map (load_row L) (xs @ r # ys)) = ?A @ ?r # ?B"
    using assms(5) by simp
  have sel': "filter ?m (map (load_row L) (xs @ ys)) = ?A @ ?B"
    by simp
  define res where "res = query_result \<lparr>columns = ?cs, rows = ?A @ ?r # ?B\<rparr>"
  define res' where "res' = query_result \<lparr>columns = ?cs, rows = ?A @ ?B\<rparr>"
  have u: "fst (update L region segment category year st) = Inr res"
    using update_result [OF l assms(4), of region segment category] sel
    by (simp add: res_def)
  have u': "fst (update L region segment category year st') = Inr res'"
    using update_result [OF l' assms(4), of region segment category] sel'
    by (simp add: res'_def)
  have m: "fig_map res = fig_map res'"
    using a by (simp add: res_def res'_def query_result_def)
  have s: "kpi_sales res = kpi_sales res' + (case Sales r of None \<Rightarrow> 0 | Some v \<Rightarrow> v)"
    by (simp add: res_def res'_def query_result_def sum_skipna_def sp)
  have p: "kpi_profit res = kpi_profit res' + (case Profit r of None \<Rightarrow> 0 | Some v \<Rightarrow> v)"
    by (simp add: res_def res'_def query_result_def sum_skipna_def sp)
  have ko': "kpi_orders res' = nunique (map Order_ID (filter ?m (map (load_row L) (xs @ ys))))"
    unfolding sel' by (simp add: res'_def query_result_def)
  have ko: "kpi_orders res = nunique (map Order_ID (filter ?m (map (load_row L) (xs @ r # ys))))"
    unfolding sel by (simp add: res_def query_result_def)
  have o': "kpi_orders res' =
      card {oid. \<exists>q \<in> set (xs @ ys). ?m (load_row L q) \<and> Order_ID q = Some oid}"
    unfolding ko' nunique_card ids_of_selected by (simp only: id)
  have split_r: "{oid. \<exists>q \<in> set (xs @ r # ys). ?m (load_row L q) \<and> Order_ID q = Some oid}
      = {oid. \<exists>q \<in> set (xs @ ys). ?m (load_row L q) \<and> Order_ID q = Some oid}
          \<union> {oid. Order_ID r = Some oid}"
  proof (intro set_eqI iffI)
    fix v
    assume "v \<in> {oid. \<exists>q \<in> set (xs @ r # ys). ?m (load_row L q) \<and> Order_ID q = Some oid}"
    then obtain q where q: "q \<in> set (xs @ r # ys)" "?m (load_row L q)" "Order_ID q = Some v"
      by blast
    show "v \<in> {oid. \<exists>q \<in> set (xs @ ys). ?m (load_row L q) \<and> Order_ID q = Some oid}
          \<union> {oid. Order_ID r = Some oid}"
    proof (cases "q = r")
      case True
      with q(3) show ?thesis by simp
    next
      case False
      with q(1) have "q \<in> set (xs @ ys)" by auto
      with q(2,3) show ?thesis by blast
    qed
  next
    fix v
    assume "v \<in> {oid. \<exists>q \<in> set (xs @ ys). ?m (load_row L q) \<and> Order_ID q = Some oid}
          \<union> {oid. Order_ID r = Some oid}"
    then consider q where "q \<in> set (xs @ ys)" "?m (load_row L q)" "Order_ID q = Some v"
      | "Order_ID r = Some v"
      by blast
    then show "v \<in> {oid. \<exists>q \<in> set (xs @ r # ys). ?m (load_row L q) \<and> Order_ID q = Some oid}"
    proof cases
      case 1
      from 1(1) have "q \<in> set (xs @ r # ys)" by auto
      with 1(2,3) show ?thesis by blast
    next
      case 2
      have "r \<in> set (xs @ r # ys)" by simp
      with 2 assms(5) show ?thesis by blast
    qed
  qed
  have o: "kpi_orders res =
      card ({oid. \<exists>q \<in> set (xs @ ys). ?m (load_row L q) \<and> Order_ID q = Some oid}
            \<union> {oid. Order_ID r = Some oid})"
    unfolding ko nunique_card ids_of_selected split_r [symmetric] by (simp only: id)
  from u u' m s p o' o have "\<exists>res res'.
          fst (update L region segment category year st) = Inr res
        \<and> fst (update L region segment category year st') = Inr res'
        \<and> fig_map res = fig_map res'
        \<and> kpi_sales res = kpi_sales res' + (case Sales r of None \<Rightarrow> 0 | Some v \<Rightarrow> v)
        \<and> kpi_profit res = kpi_profit res' + (case Profit r of None \<Rightarrow> 0 | Some v \<Rightarrow> v)
        \<and> kpi_orders res' =
            card {oid. \<exists>q \<in> set (xs @ ys). matches region segment category yf (load_row L q)
                                             \<and> Order_ID q = Some oid}
        \<and> kpi_orders res =
            card ({oid. \<exists>q \<in> set (xs @ ys). matches region segment category yf (load_row L q)
                                              \<and> Order_ID q = Some oid}
                  \<union> {oid. Order_ID r = Some oid})"
    by (intro exI [of _ res] exI [of _ res'] conjI)
  with a show ?thesis by (rule conjI)
qed


lemma example_startup:
  "startup example_lib (Inr \<lparr>columns = example_columns, rows = rs\<rparr>) = Inr (example_store rs)"
  by (simp add: startup_def load_data_def example_columns_def loaded_columns_def needed_def
      add_column_def example_store_def)

theorem unmapped_state_row_witness:
  "startup example_lib (Inr \<lparr>columns = example_columns,
       rows = [example_row] @ example_row\<lparr>State := Some ''Narnia'', Sales := Some 50\<rparr> # []\<rparr>)
     = Inr (example_store [example_row, example_row\<lparr>State := Some ''Narnia'', Sales := Some 50\<rparr>])
   \<and> startup example_lib (Inr \<lparr>columns = example_columns, rows = [example_row] @ []\<rparr>)
     = Inr (example_store [example_row])
   \<and> State (example_row\<lparr>State := Some ''Narnia'', Sales := Some 50\<rparr>)
       \<notin> Some ` fst ` set STATE_TO_ABBR
   \<and> year_filter example_lib (YStr ''All'') = Inr None
   \<and> matches ''West'' ''All'' ''All'' None
         (load_row example_lib (example_row\<lparr>State := Some ''Narnia'', Sales := Some 50\<rparr>))
   \<and> State_Abbr (load_row example_lib (example_row\<lparr>State := Some ''Narnia'', Sales := Some 50\<rparr>))
       = None
   \<and> (\<exists>res res'.
         fst (update example_lib ''West'' ''All'' ''All'' (YStr ''All'')
                (example_store [example_row, example_row\<lparr>State := Some ''Narnia'', Sales := Some 50\<rparr>]))
           = Inr res
       \<and> fst (update example_lib ''West'' ''All'' ''All'' (YStr ''All'') (example_store [example_row]))
           = Inr res'
       \<and> fig_map res = fig_map res' \<and> kpi_sales res = kpi_sales res' + 50
       \<and> kpi_profit res = kpi_profit res' + 20)"
proof -
  let ?r = "example_row\<lparr>State := Some ''Narnia'', Sales := Some 50\<rparr>"
  have s1: "startup example_lib (Inr \<lparr>columns = example_columns, rows = [example_row] @ ?r # []\<rparr>)
      = Inr (example_store [example_row, ?r])"
    using example_startup [of "[example_row, ?r]"] by simp
  have s2: "startup example_lib (Inr \<lparr>columns = example_columns, rows = [example_row] @ []\<rparr>)
      = Inr (example_store [example_row])"
    using example_startup [of "[example_row]"] by simp
  have n: "State ?r \<notin> Some ` fst ` set STATE_TO_ABBR"
    by (simp add: STATE_TO_ABBR_def)
  have y: "year_filter example_lib (YStr ''All'') = Inr None"
    by (simp add: year_filter_def)
  have m: "matches ''West'' ''All'' ''All'' None (load_row example_lib ?r)"
    by (simp add: matches_def load_row_def example_row_def)
  have v: "Sales ?r = Some 50" "Profit ?r = Some 20"
    by (simp_all add: example_row_def)
  from unmapped_state_row [OF s1 s2 n y m]
  have "State_Abbr (load_row example_lib ?r) = None"
    and "\<exists>res res'.
         fst (update example_lib ''West'' ''All'' ''All'' (YStr ''All'') (example_store [example_row, ?r]))
           = Inr res
       \<and> fst (update example_lib ''West'' ''All'' ''All'' (YStr ''All'') (example_store [example_row]))
           = Inr res'
       \<and> fig_map res = fig_map res' \<and> kpi_sales res = kpi_sales res' + 50
       \<and> kpi_profit res = kpi_profit res' + 20"
    unfolding v option.case by blast+
  with s1 s2 n y m show ?thesis by blast
qed

end
